theory Spec2Isabelle
  imports Complex_Main "HOL-Library.Sublist"
begin

section \<open>Strings and platform primitives\<close>

text \<open>
  A JavaScript string is modelled as a \<open>string\<close>: a list of code units below \<open>0x100\<close>
  (the Latin-1 range, which holds every character that the regular expressions of
  \<open>index.js\<close> name). Thrown values are the two kinds
  of exception the modelled code can meet.
\<close>

datatype exn = Error string | TypeError string

type_synonym bytes = string

definition digit_char :: "nat \<Rightarrow> char" where
  "digit_char d = ''0123456789'' ! d"

text \<open>The decimal rendering of a non-negative integer in a template literal.\<close>

function show_nat :: "nat \<Rightarrow> string" where
  "show_nat n = (if n < 10 then [digit_char n] else show_nat (n div 10) @ [digit_char (n mod 10)])"
  by pat_completeness auto
termination
  by (relation "measure id") auto

declare show_nat.simps [simp del]

section \<open>String operations of the platform\<close>

text \<open>
  The character classes of the regular expressions and of \<open>trim\<close>, on code units below
  \<open>0x100\<close>: \<open>\s\<close> and the white space that \<open>trim\<close> removes are tab, line feed,
  vertical tab, form feed, carriage return, space and no-break space; \<open>.\<close> matches
  everything but line feed and carriage return; \<open>\w\<close> (for \<open>\b\<close>) is ASCII.
\<close>

definition is_space :: "char \<Rightarrow> bool" where
  "is_space c = (of_char c \<in> {9, 10, 11, 12, 13, 32, 160 :: nat})"

definition is_line_terminator :: "char \<Rightarrow> bool" where
  "is_line_terminator c = (of_char c \<in> {10, 13 :: nat})"

definition is_upper :: "char \<Rightarrow> bool" where
  "is_upper c = (65 \<le> (of_char c :: nat) \<and> (of_char c :: nat) \<le> 90)"

definition is_lower :: "char \<Rightarrow> bool" where
  "is_lower c = (97 \<le> (of_char c :: nat) \<and> (of_char c :: nat) \<le> 122)"

definition is_digit :: "char \<Rightarrow> bool" where
  "is_digit c = (48 \<le> (of_char c :: nat) \<and> (of_char c :: nat) \<le> 57)"

definition is_alnum :: "char \<Rightarrow> bool" where
  "is_alnum c = (is_upper c \<or> is_lower c \<or> is_digit c)"

definition is_word :: "char \<Rightarrow> bool" where
  "is_word c = (is_alnum c \<or> c = CHR ''_'')"

definition newline :: char where
  "newline = CHR 0x0A"

definition trimStart :: "string \<Rightarrow> string" where
  "trimStart s = dropWhile is_space s"

definition trimEnd :: "string \<Rightarrow> string" where
  "trimEnd s = rev (dropWhile is_space (rev s))"

definition trim :: "string \<Rightarrow> string" where
  "trim s = trimEnd (trimStart s)"

text \<open>\<open>s.startsWith(p)\<close>, and the rest of \<open>s\<close> after the literal \<open>p\<close> when it starts
  with it.\<close>

fun startsWith :: "string \<Rightarrow> string \<Rightarrow> bool" where
  "startsWith s [] = True"
| "startsWith [] (p # ps) = False"
| "startsWith (c # cs) (p # ps) = (c = p \<and> startsWith cs ps)"

fun after_prefix :: "string \<Rightarrow> string \<Rightarrow> string option" where
  "after_prefix [] s = Some s"
| "after_prefix (p # ps) [] = None"
| "after_prefix (p # ps) (c # cs) = (if c = p then after_prefix ps cs else None)"

text \<open>\<open>s.includes(p)\<close>.\<close>

fun str_includes :: "string \<Rightarrow> string \<Rightarrow> bool" where
  "str_includes [] p = (p = [])"
| "str_includes (c # cs) p = (startsWith (c # cs) p \<or> str_includes cs p)"

text \<open>\<open>s.split(sep)\<close> for a separator of one character: the pieces between the
  separators, one more than there are separators.\<close>

fun split_char :: "char \<Rightarrow> string \<Rightarrow> string list" where
  "split_char sep [] = [[]]"
| "split_char sep (c # cs) =
     (case split_char sep cs of
        [] \<Rightarrow> [[]]
      | p # ps \<Rightarrow> if c = sep then [] # p # ps else (c # p) # ps)"

text \<open>
  \<open>text.split(/\n\n+/)\<close>: the pieces between the maximal runs of two or more line
  feeds; a single line feed stays in its piece.
\<close>

function split_blocks :: "string \<Rightarrow> string list" where
  "split_blocks [] = [[]]"
| "split_blocks (c # cs) =
     (if c = newline \<and> startsWith cs [newline]
      then [] # split_blocks (dropWhile (\<lambda>d. d = newline) cs)
      else (case split_blocks cs of
              [] \<Rightarrow> [[c]]
            | p # ps \<Rightarrow> (c # p) # ps))"
  by pat_completeness auto
termination
  by (relation "measure length") (auto simp add: length_dropWhile_le less_Suc_eq_le)

text \<open>\<open>s.replace(/-/g, ":")\<close> and \<open>s.replace(/[^a-zA-Z0-9-]/g, "_")\<close>.\<close>

definition hyphens_to_colons :: "string \<Rightarrow> string" where
  "hyphens_to_colons s = map (\<lambda>c. if c = CHR ''-'' then CHR '':'' else c) s"

definition sanitize :: "string \<Rightarrow> string" where
  "sanitize s = map (\<lambda>c. if is_alnum c \<or> c = CHR ''-'' then c else CHR ''_'') s"

text \<open>A truthy string is a present and non-empty one; \<open>x || d\<close> on strings.\<close>

fun truthy :: "string option \<Rightarrow> bool" where
  "truthy None = False"
| "truthy (Some s) = (s \<noteq> [])"

fun or_else :: "string option \<Rightarrow> string \<Rightarrow> string" where
  "or_else None d = d"
| "or_else (Some s) d = (if s = [] then d else s)"

text \<open>A \<open>Set\<close> of strings in insertion order, as \<open>[...set]\<close> lists it.\<close>

definition set_add :: "string list \<Rightarrow> string \<Rightarrow> string list" where
  "set_add ks k = (if k \<in> set ks then ks else ks @ [k])"

definition new_Set :: "string list \<Rightarrow> string list" where
  "new_Set xs = foldl set_add [] xs"

section \<open>The rich-text document and \<open>extractText\<close>\<close>

text \<open>
  A node of the document as the code reads it: \<open>type\<close>, \<open>text\<close>, \<open>marks\<close>,
  \<open>attrs.id\<close>, \<open>attrs.text\<close>, \<open>attrs.url\<close> and \<open>content\<close>, each of which may
  be missing. A mark has a \<open>type\<close> and may have \<open>attrs.href\<close>. The value handed to
  \<open>extractText\<close> is \<open>null\<close>, a string or a node.
\<close>

datatype mark = Mark (mark_type: string) (href: "string option")

datatype node =
  Node (node_type: string) (node_text: "string option") (marks: "mark list option")
       (attrs_id: "string option") (attrs_text: "string option") (attrs_url: "string option")
       (content: "node list option")

datatype adf = Null | Str string | Doc node

text \<open>The hrefs pushed for the marks of a text node: those of the \<open>link\<close> marks with a
  truthy \<open>href\<close>.\<close>

fun mark_urls :: "mark list \<Rightarrow> string list" where
  "mark_urls [] = []"
| "mark_urls (m # ms) =
     (if mark_type m = ''link'' \<and> truthy (href m) then the (href m) # mark_urls ms
      else mark_urls ms)"

definition is_media :: "string \<Rightarrow> bool" where
  "is_media t = (t = ''mediaGroup'' \<or> t = ''mediaSingle'')"

definition is_card :: "string \<Rightarrow> bool" where
  "is_card t = (t = ''inlineCard'' \<or> t = ''blockCard'' \<or> t = ''embedCard'')"

text \<open>
  \<open>extractText(node, urls)\<close> for a node; its loop over \<open>content.content\<close>, with
  the text and the URLs collected so far; and the body of the loop for one child, which
  gives the text to append and the URLs after it.
\<close>

fun extractText_node :: "node \<Rightarrow> string list \<Rightarrow> string \<times> string list"
  and extractText_loop :: "node list \<Rightarrow> string \<Rightarrow> string list \<Rightarrow> string \<times> string list"
  and extractText_visit :: "node \<Rightarrow> string list \<Rightarrow> string \<times> string list" where
  "extractText_node (Node ty tx ms ai ax au cs) urls =
     (case cs of None \<Rightarrow> ([], urls) | Some ns \<Rightarrow> extractText_loop ns [] urls)"
| "extractText_loop [] acc urls = (acc, urls)"
| "extractText_loop (n # rest) acc urls =
     (case extractText_visit n urls of (t, urls') \<Rightarrow> extractText_loop rest (acc @ t) urls')"
| "extractText_visit (Node ty tx ms ai ax au cs) urls =
     (if ty = ''text'' then
        (or_else tx [], urls @ (case ms of None \<Rightarrow> [] | Some ms' \<Rightarrow> mark_urls ms'))
      else if ty = ''paragraph'' then
        (case extractText_node (Node ty tx ms ai ax au cs) urls of
           (t, urls') \<Rightarrow> (t @ [newline], urls'))
      else if ty = ''hardBreak'' then ([newline], urls)
      else if ty = ''mention'' then (''@'' @ or_else ax ''user'', urls)
      else if is_media ty then (''[image attachment]'' @ [newline], urls)
      else if is_card ty then
        (if truthy au then (the au @ [newline], urls @ [the au]) else ([], urls))
      else if cs \<noteq> None then extractText_node (Node ty tx ms ai ax au cs) urls
      else ([], urls))"

fun extractText :: "adf \<Rightarrow> string list \<Rightarrow> string \<times> string list" where
  "extractText Null urls = ([], urls)"
| "extractText (Str s) urls = (s, urls)"
| "extractText (Doc n) urls = extractText_node n urls"

definition extractTextSimple :: "adf \<Rightarrow> string" where
  "extractTextSimple c = fst (extractText c [])"

text \<open>
  What the loop of \<open>extractText\<close> makes of one child, as two functions of the child
  alone: the URLs it adds and the text it appends (see \<open>extractText_walk\<close> below).
\<close>

fun walk_urls :: "node \<Rightarrow> string list" where
  "walk_urls (Node ty tx ms ai ax au cs) =
     (if ty = ''text'' then (case ms of None \<Rightarrow> [] | Some ms' \<Rightarrow> mark_urls ms')
      else if ty = ''hardBreak'' \<or> ty = ''mention'' \<or> is_media ty then []
      else if is_card ty then (if truthy au then [the au] else [])
      else (case cs of None \<Rightarrow> [] | Some ns \<Rightarrow> concat (map walk_urls ns)))"

fun walk_text :: "node \<Rightarrow> string" where
  "walk_text (Node ty tx ms ai ax au cs) =
     (if ty = ''text'' then or_else tx []
      else if ty = ''paragraph'' then
        (case cs of None \<Rightarrow> [] | Some ns \<Rightarrow> concat (map walk_text ns)) @ [newline]
      else if ty = ''hardBreak'' then [newline]
      else if ty = ''mention'' then ''@'' @ or_else ax ''user''
      else if is_media ty then ''[image attachment]'' @ [newline]
      else if is_card ty then (if truthy au then the au @ [newline] else [])
      else (case cs of None \<Rightarrow> [] | Some ns \<Rightarrow> concat (map walk_text ns)))"

subsection \<open>The URLs of a document, after the specification\<close>

text \<open>
  Following the specification's words: the hrefs of every link-marked text node and the
  URL of every card node (smart link or embed), anywhere in the tree below the root, in
  document order, with multiplicity.
\<close>

fun link_hrefs :: "mark list \<Rightarrow> string list" where
  "link_hrefs [] = []"
| "link_hrefs (Mark t h # ms) =
     (if t = ''link'' then (case h of None \<Rightarrow> [] | Some u \<Rightarrow> [u]) @ link_hrefs ms
      else link_hrefs ms)"

fun spec_node_urls :: "node \<Rightarrow> string list" where
  "spec_node_urls (Node ty tx ms ai ax au cs) =
     (if ty = ''text'' then (case ms of None \<Rightarrow> [] | Some ms' \<Rightarrow> link_hrefs ms')
      else if is_card ty then (case au of None \<Rightarrow> [] | Some u \<Rightarrow> [u])
      else [])
     @ (case cs of None \<Rightarrow> [] | Some ns \<Rightarrow> concat (map spec_node_urls ns))"

definition spec_urls :: "node \<Rightarrow> string list" where
  "spec_urls d = (case content d of None \<Rightarrow> [] | Some ns \<Rightarrow> concat (map spec_node_urls ns))"

text \<open>
  The node types whose children \<open>extractText\<close> walks through (a paragraph always, any
  other such type when it has content), as opposed to text, hard break, mention, media
  and card nodes, which it renders without looking below them. A document hides no URL
  when no URL lies below a node of the second kind.
\<close>

definition walked :: "string \<Rightarrow> bool" where
  "walked ty = (ty \<noteq> ''text'' \<and> ty \<noteq> ''hardBreak'' \<and> ty \<noteq> ''mention''
                 \<and> \<not> is_media ty \<and> \<not> is_card ty)"

definition children :: "node \<Rightarrow> node list" where
  "children n = (case content n of None \<Rightarrow> [] | Some ns \<Rightarrow> ns)"

fun hides_no_url :: "node \<Rightarrow> bool" where
  "hides_no_url (Node ty tx ms ai ax au cs) =
     (case cs of
        None \<Rightarrow> True
      | Some ns \<Rightarrow> (walked ty \<or> concat (map spec_node_urls ns) = [])
                    \<and> (\<forall>n \<in> set ns. hides_no_url n))"

subsection \<open>Sample documents\<close>

text \<open>Nodes without and with children, text nodes and cards; a document whose only child
  is a media node with a caption, the caption holding a linked text; and a document with
  links in a paragraph and in a list.\<close>

definition leaf :: "string \<Rightarrow> node" where
  "leaf ty = Node ty None None None None None None"

definition parent_of :: "string \<Rightarrow> node list \<Rightarrow> node" where
  "parent_of ty ns = Node ty None None None None None (Some ns)"

definition text_node :: "string \<Rightarrow> node" where
  "text_node s = Node ''text'' (Some s) None None None None None"

definition linked_text :: "string \<Rightarrow> string \<Rightarrow> node" where
  "linked_text s u = Node ''text'' (Some s) (Some [Mark ''link'' (Some u)]) None None None None"

definition card :: "string \<Rightarrow> node" where
  "card u = Node ''inlineCard'' None None None None (Some u) None"

definition caption_doc :: node where
  "caption_doc =
     parent_of ''doc''
       [parent_of ''mediaSingle''
          [leaf ''media'',
           parent_of ''caption'' [linked_text ''source'' ''https://example.com/a'']]]"

definition links_doc :: node where
  "links_doc =
     parent_of ''doc''
       [parent_of ''paragraph''
          [linked_text ''one'' ''https://example.com/a'', text_node '' and '',
           card ''https://example.com/b''],
        parent_of ''bulletList''
          [parent_of ''listItem''
             [parent_of ''paragraph'' [linked_text ''again'' ''https://example.com/a'']]]]"

section \<open>Building a comment: \<open>parseInlineFormatting\<close> and \<open>buildCommentADF\<close>\<close>

text \<open>
  The regular expression of \<open>parseInlineFormatting\<close> has four alternatives, tried in
  this order at each position: a code span between backticks, a bold span between
  double asterisks, an italic span between asterisks, and a mention.

  \<open>lazy_until close s\<close> matches \<open>.+?\<close> followed by the literal \<open>close\<close> at the start
  of \<open>s\<close>: the shortest non-empty run without a line terminator after which \<open>close\<close>
  stands. It gives the run and the text after \<open>close\<close>.
\<close>

fun lazy_until :: "string \<Rightarrow> string \<Rightarrow> (string \<times> string) option" where
  "lazy_until close [] = None"
| "lazy_until close (c # cs) =
     (if is_line_terminator c then None
      else (case after_prefix close cs of
              Some rest \<Rightarrow> Some ([c], rest)
            | None \<Rightarrow>
                (case lazy_until close cs of
                   None \<Rightarrow> None
                 | Some (g, rest) \<Rightarrow> Some (c # g, rest))))"

text \<open>A delimited span: the opening literal, \<open>.+?\<close>, the closing literal.\<close>

definition span :: "string \<Rightarrow> string \<Rightarrow> string \<Rightarrow> (string \<times> string) option" where
  "span opening close s =
     (case after_prefix opening s of None \<Rightarrow> None | Some r \<Rightarrow> lazy_until close r)"

text \<open>
  The characters of \<open>[a-zA-Z\<dots>]\<close> in a mention, the last range being the code units
  \<open>0xE0\<close> to \<open>0xFF\<close>; and the length of the longest match of
  \<open>[a-zA-Z\<dots>]*(?:\s[A-Z][a-zA-Z\<dots>]*)*\<close> at the start of a string: name characters,
  and white space where a capital letter follows.
\<close>

definition is_name_char :: "char \<Rightarrow> bool" where
  "is_name_char c = (is_upper c \<or> is_lower c \<or> 224 \<le> (of_char c :: nat))"

fun name_rest :: "string \<Rightarrow> nat" where
  "name_rest [] = 0"
| "name_rest (c # cs) =
     (if is_name_char c then Suc (name_rest cs)
      else if is_space c \<and> (case cs of [] \<Rightarrow> False | d # ds \<Rightarrow> is_upper d)
      then Suc (name_rest cs)
      else 0)"

datatype inline_match = Code string | Bold string | Italic string | Mention string

definition backtick :: char where
  "backtick = CHR 0x60"

text \<open>The match of the regular expression at the start of \<open>s\<close>, if any: which
  alternative matched, with its group, and the text after the match.\<close>

definition match_inline :: "string \<Rightarrow> (inline_match \<times> string) option" where
  "match_inline s =
     (case span [backtick] [backtick] s of
        Some (g, rest) \<Rightarrow> Some (Code g, rest)
      | None \<Rightarrow>
     (case span ''**'' ''**'' s of
        Some (g, rest) \<Rightarrow> Some (Bold g, rest)
      | None \<Rightarrow>
     (case span ''*'' ''*'' s of
        Some (g, rest) \<Rightarrow> Some (Italic g, rest)
      | None \<Rightarrow>
     (case s of
        a # c # cs \<Rightarrow>
          if a = CHR ''@'' \<and> is_upper c
          then Some (Mention (c # take (name_rest cs) cs), drop (name_rest cs) cs)
          else None
      | _ \<Rightarrow> None))))"

lemma after_prefix_length: "after_prefix p s = Some r \<Longrightarrow> length r \<le> length s"
  by (induction p s rule: after_prefix.induct) (auto split: if_splits)

lemma lazy_until_length: "lazy_until close s = Some (g, rest) \<Longrightarrow> length rest < length s"
proof (induction s arbitrary: g)
  case Nil
  then show ?case by simp
next
  case (Cons c cs)
  show ?case
  proof (cases "after_prefix close cs")
    case (Some r)
    with Cons.prems have "rest = r" by (simp split: if_splits)
    with after_prefix_length[OF Some] show ?thesis by simp
  next
    case None
    with Cons.prems obtain g' where "lazy_until close cs = Some (g', rest)"
      by (auto split: if_splits option.splits)
    with Cons.IH show ?thesis by fastforce
  qed
qed

lemma span_length: "span opening close s = Some (g, rest) \<Longrightarrow> length rest < length s"
  unfolding span_def
  by (auto split: option.splits dest!: lazy_until_length after_prefix_length)

lemma match_inline_length: "match_inline s = Some (m, rest) \<Longrightarrow> length rest < length s"
  unfolding match_inline_def
  by (auto split: option.splits list.splits if_splits dest: span_length)

text \<open>A user found by \<open>searchUser\<close>. The lookup itself (a request to the ticket backend
  behind a cache) is a parameter of the functions below.\<close>

record user =
  accountId :: string
  displayName :: string

text \<open>Nodes as the code builds them.\<close>

definition marked_text :: "string \<Rightarrow> string \<Rightarrow> node" where
  "marked_text s m = Node ''text'' (Some s) (Some [Mark m None]) None None None None"

definition mention_node :: "user \<Rightarrow> node" where
  "mention_node u =
     Node ''mention'' None None (Some (accountId u)) (Some (''@'' @ displayName u)) None None"

text \<open>The node pushed for a match.\<close>

fun match_node :: "(string \<Rightarrow> user option) \<Rightarrow> inline_match \<Rightarrow> node" where
  "match_node searchUser (Code g) = marked_text g ''code''"
| "match_node searchUser (Bold g) = marked_text g ''strong''"
| "match_node searchUser (Italic g) = marked_text g ''em''"
| "match_node searchUser (Mention g) =
     (case searchUser (trim g) of
        Some u \<Rightarrow> mention_node u
      | None \<Rightarrow> text_node (''@'' @ g))"

text \<open>The text between the last match and the next one, pushed when it is not empty.\<close>

definition flush :: "string \<Rightarrow> node list" where
  "flush pending = (if pending = [] then [] else [text_node pending])"

text \<open>
  The \<open>exec\<close> loop: \<open>s\<close> is the text from the current position on, \<open>pending\<close> the
  text passed over since the end of the last match.
\<close>

function parse_scan :: "(string \<Rightarrow> user option) \<Rightarrow> string \<Rightarrow> string \<Rightarrow> node list" where
  "parse_scan searchUser [] pending = flush pending"
| "parse_scan searchUser (c # cs) pending =
     (case match_inline (c # cs) of
        None \<Rightarrow> parse_scan searchUser cs (pending @ [c])
      | Some (m, rest) \<Rightarrow>
          flush pending @ [match_node searchUser m] @ parse_scan searchUser rest [])"
  by pat_completeness auto
termination
  by (relation "measure (\<lambda>(searchUser, s, pending). length s)")
     (auto dest: match_inline_length)

definition parseInlineFormatting :: "(string \<Rightarrow> user option) \<Rightarrow> string \<Rightarrow> node list" where
  "parseInlineFormatting searchUser s =
     (let nodes = parse_scan searchUser s [] in if nodes = [] then [text_node s] else nodes)"

text \<open>The content of a paragraph block: the nodes of each line, with a hard break
  before every line but the first.\<close>

fun paragraphContent :: "(string \<Rightarrow> user option) \<Rightarrow> nat \<Rightarrow> string list \<Rightarrow> node list" where
  "paragraphContent searchUser i [] = []"
| "paragraphContent searchUser i (l # ls) =
     (if i > 0 then [leaf ''hardBreak''] else []) @ parseInlineFormatting searchUser l
     @ paragraphContent searchUser (Suc i) ls"

definition isBulletList :: "string list \<Rightarrow> bool" where
  "isBulletList lines = list_all (\<lambda>l. startsWith (trimStart l) ''- '') lines"

definition listItem :: "(string \<Rightarrow> user option) \<Rightarrow> string \<Rightarrow> node" where
  "listItem searchUser line =
     parent_of ''listItem''
       [parent_of ''paragraph'' (parseInlineFormatting searchUser (drop 2 (trimStart line)))]"

text \<open>What one block pushes on \<open>content\<close>: nothing when it is blank, a bullet list or a
  paragraph.\<close>

definition block_nodes :: "(string \<Rightarrow> user option) \<Rightarrow> string \<Rightarrow> node list" where
  "block_nodes searchUser block =
     (let trimmed = trim block in
      if trimmed = [] then []
      else let lines = split_char newline trimmed in
        if isBulletList lines
        then [parent_of ''bulletList'' (map (listItem searchUser) lines)]
        else [parent_of ''paragraph'' (paragraphContent searchUser 0 lines)])"

definition buildCommentADF :: "(string \<Rightarrow> user option) \<Rightarrow> string \<Rightarrow> node list" where
  "buildCommentADF searchUser s =
     (let ns = concat (map (block_nodes searchUser) (split_blocks s)) in
      if ns = [] then [parent_of ''paragraph'' [text_node s]] else ns)"

text \<open>The document that the comment tools send: \<open>{version: 1, type: "doc", content}\<close>.\<close>

definition comment_doc :: "node list \<Rightarrow> adf" where
  "comment_doc ns = Doc (parent_of ''doc'' ns)"

subsection \<open>Plain text, after the specification\<close>

text \<open>
  A text with no inline markup: no backtick, no asterisk and no \<open>@\<close> before a capital
  letter. A bullet-list block: a block that, once trimmed, is not empty and has the
  marker at the start of each of its lines. The blocks of a text, each trimmed and ended
  by one line feed, are what the round trip is compared with.
\<close>

fun has_mention :: "string \<Rightarrow> bool" where
  "has_mention [] = False"
| "has_mention [a] = False"
| "has_mention (a # c # cs) = ((a = CHR ''@'' \<and> is_upper c) \<or> has_mention (c # cs))"

definition no_inline_markup :: "string \<Rightarrow> bool" where
  "no_inline_markup s = (backtick \<notin> set s \<and> CHR ''*'' \<notin> set s \<and> \<not> has_mention s)"

definition bullet_block :: "string \<Rightarrow> bool" where
  "bullet_block block = (trim block \<noteq> [] \<and> isBulletList (split_char newline (trim block)))"

definition normalized_blocks :: "string \<Rightarrow> string" where
  "normalized_blocks s =
     (let bs = filter (\<lambda>b. trim b \<noteq> []) (split_blocks s) in
      if bs = [] then s @ [newline] else concat (map (\<lambda>b. trim b @ [newline]) bs))"

text \<open>The pieces of a split joined again with the separator.\<close>

fun unsplit :: "char \<Rightarrow> string list \<Rightarrow> string" where
  "unsplit sep [] = []"
| "unsplit sep [p] = p"
| "unsplit sep (p # q # ps) = p @ sep # unsplit sep (q # ps)"

subsection \<open>Sample inputs\<close>

text \<open>A lookup that finds nobody, and a text of two paragraphs.\<close>

definition sample_searchUser :: "string \<Rightarrow> user option" where
  "sample_searchUser q = None"

definition two_paragraphs :: string where
  "two_paragraphs = '' Hello  you'' @ [newline, newline, newline] @ ''bye ''"

section \<open>Effects\<close>

text \<open>
  The effects of the program are written into a state that every operation takes and
  returns: the endpoints passed to \<open>fetchJira\<close>, the URLs passed to \<open>fetch\<close>, the
  durations passed to \<open>sleep\<close> (milliseconds) and the files on disk.
\<close>

record state =
  jira_calls :: "string list"
  requests :: "string list"
  sleeps :: "nat list"
  files :: "string \<rightharpoonup> bytes"

section \<open>The Figma fetch with retry\<close>

text \<open>
  The value of the \<open>retry-after\<close> header of a response: absent, a text on which
  \<open>Number\<close> yields \<open>NaN\<close> (an HTTP date, for instance), or a count of seconds. Negative,
  fractional and infinite values, which the grammar of the header does not allow, are
  outside the model.
\<close>

datatype header_value = Absent | NonNumeric | Seconds nat

record 'b response =
  status :: nat
  retry_after :: header_value
  body :: 'b

definition ok :: "('b, 'x) response_scheme \<Rightarrow> bool" where
  "ok r = (200 \<le> status r \<and> status r \<le> 299)"

text \<open>\<open>Number(response.headers.get("retry-after"))\<close>: \<open>None\<close> is \<open>NaN\<close>, and
  \<open>Number(null)\<close> is \<open>0\<close>.\<close>

fun Number :: "header_value \<Rightarrow> nat option" where
  "Number Absent = Some 0"
| "Number NonNumeric = None"
| "Number (Seconds n) = Some n"

text \<open>\<open>Number(...) || 60\<close>: \<open>NaN\<close> and \<open>0\<close> are falsy.\<close>

fun or60 :: "nat option \<Rightarrow> nat" where
  "or60 None = 60"
| "or60 (Some n) = (if n = 0 then 60 else n)"

definition retryAfterSec :: "('b, 'x) response_scheme \<Rightarrow> nat" where
  "retryAfterSec r = or60 (Number (retry_after r))"

text \<open>\<open>Math.round(s / 3600)\<close> rounds half up.\<close>

definition round_hours :: "nat \<Rightarrow> nat" where
  "round_hours s = (s + 1800) div 3600"

definition waitTime :: "nat \<Rightarrow> string" where
  "waitTime s =
     (if s > 3600 then show_nat (round_hours s) @ '' hours (monthly limit reached)''
      else show_nat s @ '' seconds'')"

datatype 'b retry_result = Response "'b response" | RateLimited string

text \<open>
  \<open>fetch\<close> is the network: the outcome of the request issued when \<open>n\<close> requests have
  been issued before, to the given URL; \<open>Inl\<close> is a transport exception. The loop of
  \<open>figmaFetchWithRetry\<close>, with the attempt counter as an argument.
\<close>

function retry_loop ::
  "(nat \<Rightarrow> string \<Rightarrow> exn + 'b response) \<Rightarrow> string \<Rightarrow> nat \<Rightarrow> nat \<Rightarrow> nat \<Rightarrow> state
     \<Rightarrow> (exn + 'b retry_result) \<times> state" where
  "retry_loop fetch url maxRetries maxWaitSec attempts st =
     (let st1 = st\<lparr>requests := requests st @ [url]\<rparr> in
      case fetch (length (requests st)) url of
        Inl e \<Rightarrow> (Inl e, st1)
      | Inr response \<Rightarrow>
          if ok response then (Inr (Response response), st1)
          else if status response = 429 then
            (if retryAfterSec response > maxWaitSec \<or> attempts \<ge> maxRetries
             then (Inr (RateLimited (waitTime (retryAfterSec response))), st1)
             else retry_loop fetch url maxRetries maxWaitSec (Suc attempts)
                    (st1\<lparr>sleeps := sleeps st1 @ [retryAfterSec response * 1000]\<rparr>))
          else (Inr (Response response), st1))"
  by pat_completeness auto
termination
  by (relation "measure (\<lambda>(fetch, url, maxRetries, maxWaitSec, attempts, st). maxRetries - attempts)")
     auto

declare retry_loop.simps [simp del]

definition figmaFetchWithRetry ::
  "(nat \<Rightarrow> string \<Rightarrow> exn + 'b response) \<Rightarrow> string \<Rightarrow> nat \<Rightarrow> nat \<Rightarrow> state
     \<Rightarrow> (exn + 'b retry_result) \<times> state" where
  "figmaFetchWithRetry fetch url maxRetries maxWaitSec st =
     retry_loop fetch url maxRetries maxWaitSec 0 st"


text \<open>
  Replacing, on every 429 response, a \<open>retry-after\<close> header that is absent, not
  numeric or zero by one of 60 seconds.
\<close>

definition as_60 :: "header_value \<Rightarrow> header_value" where
  "as_60 h = (if h = Absent \<or> h = NonNumeric \<or> h = Seconds 0 then Seconds 60 else h)"

definition with_60 ::
  "(nat \<Rightarrow> string \<Rightarrow> exn + 'b response) \<Rightarrow> nat \<Rightarrow> string \<Rightarrow> exn + 'b response" where
  "with_60 fetch n u =
     (case fetch n u of
        Inl e \<Rightarrow> Inl e
      | Inr r \<Rightarrow> Inr (if status r = 429 then r\<lparr>retry_after := as_60 (retry_after r)\<rparr> else r))"

subsection \<open>Sample inputs\<close>

definition st0 :: state where
  "st0 = \<lparr>jira_calls = [], requests = [], sleeps = [], files = Map.empty\<rparr>"

definition mock_429_429_200 :: "nat \<Rightarrow> string \<Rightarrow> exn + unit response" where
  "mock_429_429_200 i u =
     Inr (if i < 2 then \<lparr>status = 429, retry_after = Seconds 5, body = ()\<rparr>
          else \<lparr>status = 200, retry_after = Absent, body = ()\<rparr>)"

definition mock_429_7200 :: "nat \<Rightarrow> string \<Rightarrow> exn + unit response" where
  "mock_429_7200 i u = Inr \<lparr>status = 429, retry_after = Seconds 7200, body = ()\<rparr>"

definition mock_429_absent :: "nat \<Rightarrow> string \<Rightarrow> exn + unit response" where
  "mock_429_absent i u = Inr \<lparr>status = 429, retry_after = Absent, body = ()\<rparr>"

section \<open>Finding references: \<open>findJiraTicketKeys\<close>, \<open>findFigmaUrls\<close>, \<open>parseFigmaUrl\<close>\<close>

subsection \<open>Ticket keys\<close>

text \<open>
  \<open>[A-Z][A-Z0-9]+-\d+\<close> at the start of a string: a capital letter, the longest run of
  capital letters and digits (at least one), a hyphen, and the longest run of digits (at
  least one). Giving back a character of either run never helps, since the run is then
  followed by one of its own characters. The result is the key and the text after it.
\<close>

definition is_key_char :: "char \<Rightarrow> bool" where
  "is_key_char c = (is_upper c \<or> is_digit c)"

definition key_at :: "string \<Rightarrow> (string \<times> string) option" where
  "key_at s =
     (case s of
        [] \<Rightarrow> None
      | c # cs \<Rightarrow>
          if \<not> is_upper c \<or> takeWhile is_key_char cs = [] then None
          else (case dropWhile is_key_char cs of
                  [] \<Rightarrow> None
                | d # r \<Rightarrow>
                    if d \<noteq> CHR ''-'' \<or> takeWhile is_digit r = [] then None
                    else Some (c # takeWhile is_key_char cs @ CHR ''-'' # takeWhile is_digit r,
                               dropWhile is_digit r)))"

text \<open>
  The URL expression \<open>https?:\/\/[^\s]+\/browse\/([A-Z][A-Z0-9]+-\d+)\<close> at the start of
  a string. \<open>last_browse\<close> is \<open>[^\s]+\<close> with what follows it: the run of characters
  other than white space is taken as long as possible, so the last place in it where
  \<open>/browse/\<close> and a key stand is the one that matches.
\<close>

definition after_scheme :: "string \<Rightarrow> string option" where
  "after_scheme s =
     (case after_prefix ''http'' s of
        None \<Rightarrow> None
      | Some r \<Rightarrow>
          (case after_prefix ''s'' r of
             Some r' \<Rightarrow> after_prefix ''://'' r'
           | None \<Rightarrow> after_prefix ''://'' r))"

definition browse_key :: "string \<Rightarrow> (string \<times> string) option" where
  "browse_key s = (case after_prefix ''/browse/'' s of None \<Rightarrow> None | Some k \<Rightarrow> key_at k)"

fun last_browse :: "string \<Rightarrow> (string \<times> string) option" where
  "last_browse [] = None"
| "last_browse (c # cs) =
     (if is_space c then None
      else (case last_browse cs of Some m \<Rightarrow> Some m | None \<Rightarrow> browse_key cs))"

definition url_at :: "string \<Rightarrow> (string \<times> string) option" where
  "url_at s = (case after_scheme s of None \<Rightarrow> None | Some r \<Rightarrow> last_browse r)"

lemma key_at_length: "key_at s = Some (k, rest) \<Longrightarrow> length rest < length s"
proof -
  assume a: "key_at s = Some (k, rest)"
  then obtain c cs d r where s: "s = c # cs" "dropWhile is_key_char cs = d # r"
      "rest = dropWhile is_digit r"
    by (auto simp add: key_at_def split: list.splits if_splits)
  have "length rest \<le> length r" using s(3) by (simp add: length_dropWhile_le)
  moreover have "length (d # r) \<le> length cs"
    using length_dropWhile_le[of is_key_char cs] s(2) by simp
  ultimately show ?thesis using s(1) by simp
qed

lemma browse_key_length: "browse_key s = Some (k, rest) \<Longrightarrow> length rest < length s"
  unfolding browse_key_def
  by (auto split: option.splits dest!: key_at_length after_prefix_length)

lemma last_browse_length: "last_browse s = Some (k, rest) \<Longrightarrow> length rest < length s"
proof (induction s)
  case Nil
  then show ?case by simp
next
  case (Cons c cs)
  then show ?case
    by (auto split: if_splits option.splits dest!: browse_key_length)
qed

lemma url_at_length: "url_at s = Some (k, rest) \<Longrightarrow> length rest < length s"
proof -
  assume a: "url_at s = Some (k, rest)"
  then obtain r where r: "after_scheme s = Some r" "last_browse r = Some (k, rest)"
    by (auto simp add: url_at_def split: option.splits)
  from r(1) have "length r \<le> length s"
    by (auto simp add: after_scheme_def split: option.splits dest!: after_prefix_length)
  with last_browse_length[OF r(2)] show ?thesis by simp
qed

text \<open>The \<open>exec\<close> loop of the URL expression: the keys of its matches, in order.\<close>

function url_keys :: "string \<Rightarrow> string list" where
  "url_keys [] = []"
| "url_keys (c # cs) =
     (case url_at (c # cs) of
        Some (k, rest) \<Rightarrow> k # url_keys rest
      | None \<Rightarrow> url_keys cs)"
  by pat_completeness auto
termination
  by (relation "measure length") (auto dest: url_at_length)

text \<open>
  The key expression \<open>\b([A-Z][A-Z0-9]+-\d+)\b\<close> at the start of a string that does not
  follow a word character: the key must end the string or stand before a character that
  is not a word character. Its \<open>exec\<close> loop carries whether the character before the
  current position is a word character.
\<close>

definition bare_key_at :: "string \<Rightarrow> (string \<times> string) option" where
  "bare_key_at s =
     (case key_at s of
        None \<Rightarrow> None
      | Some (k, rest) \<Rightarrow>
          if (case rest of [] \<Rightarrow> True | d # ds \<Rightarrow> \<not> is_word d) then Some (k, rest) else None)"

lemma bare_key_at_length: "bare_key_at s = Some (k, rest) \<Longrightarrow> length rest < length s"
  unfolding bare_key_at_def
  by (auto split: option.splits if_splits dest: key_at_length)

function bare_keys :: "bool \<Rightarrow> string \<Rightarrow> string list" where
  "bare_keys after_word [] = []"
| "bare_keys after_word (c # cs) =
     (case (if after_word then None else bare_key_at (c # cs)) of
        Some (k, rest) \<Rightarrow> k # bare_keys True rest
      | None \<Rightarrow> bare_keys (is_word c) cs)"
  by pat_completeness auto
termination
  by (relation "measure (\<lambda>(after_word, s). length s)")
     (auto split: if_splits dest: bare_key_at_length)

text \<open>\<open>findJiraTicketKeys(text, currentKey)\<close>; \<open>currentKey\<close> is \<open>null\<close> by default.\<close>

definition findJiraTicketKeys :: "string \<Rightarrow> string option \<Rightarrow> string list" where
  "findJiraTicketKeys s currentKey =
     (if s = [] then []
      else foldl set_add []
             (filter (\<lambda>k. Some k \<noteq> currentKey) (url_keys s @ bare_keys False s)))"

text \<open>A key in the code's sense is written in capital letters, digits and hyphens; upper
  case on ASCII letters serves to compare keys up to case.\<close>

definition key_shape :: "string \<Rightarrow> bool" where
  "key_shape k = (\<forall>c \<in> set k. is_upper c \<or> is_digit c \<or> c = CHR ''-'')"

definition upper_char :: "char \<Rightarrow> char" where
  "upper_char c = (if is_lower c then char_of (of_char c - (32 :: nat)) else c)"

definition toUpperCase :: "string \<Rightarrow> string" where
  "toUpperCase s = map upper_char s"

subsection \<open>Figma URLs\<close>

text \<open>
  \<open>https:\/\/(?:www\.)?figma\.com\/(?:file|design|proto)\/([a-zA-Z0-9]+)\/[^\s)>\]"']*\<close> at
  the start of a string: the text after the match.
\<close>

definition skip_optional :: "string \<Rightarrow> string \<Rightarrow> string" where
  "skip_optional p s = (case after_prefix p s of Some r \<Rightarrow> r | None \<Rightarrow> s)"

definition after_kind :: "string \<Rightarrow> string option" where
  "after_kind s =
     (case after_prefix ''file'' s of
        Some r \<Rightarrow> Some r
      | None \<Rightarrow>
          (case after_prefix ''design'' s of
             Some r \<Rightarrow> Some r
           | None \<Rightarrow> after_prefix ''proto'' s))"

definition is_url_tail :: "char \<Rightarrow> bool" where
  "is_url_tail c = (\<not> is_space c \<and> c \<notin> set '')>]'' \<and> c \<noteq> CHR 0x22 \<and> c \<noteq> CHR 0x27)"

definition figma_at :: "string \<Rightarrow> string option" where
  "figma_at s =
     (case after_prefix ''https://'' s of
        None \<Rightarrow> None
      | Some r1 \<Rightarrow>
     (case after_prefix ''figma.com/'' (skip_optional ''www.'' r1) of
        None \<Rightarrow> None
      | Some r2 \<Rightarrow>
     (case after_kind r2 of
        None \<Rightarrow> None
      | Some r3 \<Rightarrow>
     (case after_prefix ''/'' r3 of
        None \<Rightarrow> None
      | Some r4 \<Rightarrow>
          if takeWhile is_alnum r4 = [] then None
          else (case after_prefix ''/'' (dropWhile is_alnum r4) of
                  None \<Rightarrow> None
                | Some r5 \<Rightarrow> Some (dropWhile is_url_tail r5))))))"

lemma after_prefix_length_eq: "after_prefix p s = Some r \<Longrightarrow> length s = length p + length r"
  by (induction p s rule: after_prefix.induct) (auto split: if_splits)

lemma skip_optional_length: "length (skip_optional p s) \<le> length s"
  by (auto simp add: skip_optional_def split: option.splits dest: after_prefix_length)

lemma after_kind_length: "after_kind s = Some r \<Longrightarrow> length r \<le> length s"
  by (auto simp add: after_kind_def split: option.splits dest: after_prefix_length)

lemma figma_at_length:
  assumes "figma_at s = Some rest"
  shows "length rest < length s"
proof -
  from assms obtain r1 r2 r3 r4 r5 where r:
    "after_prefix ''https://'' s = Some r1"
    "after_prefix ''figma.com/'' (skip_optional ''www.'' r1) = Some r2"
    "after_kind r2 = Some r3"
    "after_prefix ''/'' r3 = Some r4"
    "after_prefix ''/'' (dropWhile is_alnum r4) = Some r5"
    "rest = dropWhile is_url_tail r5"
    unfolding figma_at_def by (auto split: option.splits if_splits)
  have "length rest \<le> length r5" by (simp add: r(6) length_dropWhile_le)
  also have "\<dots> \<le> length (dropWhile is_alnum r4)" using r(5) by (rule after_prefix_length)
  also have "\<dots> \<le> length r4" by (rule length_dropWhile_le)
  also have "\<dots> \<le> length r3" using r(4) by (rule after_prefix_length)
  also have "\<dots> \<le> length r2" using r(3) by (rule after_kind_length)
  also have "\<dots> \<le> length (skip_optional ''www.'' r1)" using r(2) by (rule after_prefix_length)
  also have "\<dots> \<le> length r1" by (rule skip_optional_length)
  also have "\<dots> < length s" using after_prefix_length_eq[OF r(1)] by simp
  finally show ?thesis .
qed

text \<open>The matches, in order: each is the text from its start up to the text after it.\<close>

function figma_matches :: "string \<Rightarrow> string list" where
  "figma_matches [] = []"
| "figma_matches (c # cs) =
     (case figma_at (c # cs) of
        Some rest \<Rightarrow> take (length (c # cs) - length rest) (c # cs) # figma_matches rest
      | None \<Rightarrow> figma_matches cs)"
  by pat_completeness auto
termination
  by (relation "measure length") (auto dest: figma_at_length)

definition findFigmaUrls :: "string \<Rightarrow> string list" where
  "findFigmaUrls s = (if s = [] then [] else new_Set (figma_matches s))"

subsection \<open>\<open>parseFigmaUrl\<close>\<close>

text \<open>
  What the code reads of a \<open>URL\<close> object: its \<open>pathname\<close> and its search parameters
  (names and values as \<open>searchParams\<close> holds them, in order). The constructor
  \<open>new URL(url)\<close> belongs to the platform and is not modelled: it is a parameter of
  \<open>parseFigmaUrl\<close>, a function that gives the object, or \<open>None\<close> where the
  constructor throws its \<open>TypeError\<close>. \<open>designRef_of\<close> is the body of
  \<open>parseFigmaUrl\<close> after the construction.
\<close>

record url =
  pathname :: string
  searchParams :: "(string \<times> string) list"

record designRef =
  fileKey :: string
  nodeId :: "string option"

definition is_kind :: "string \<Rightarrow> bool" where
  "is_kind p = (p = ''file'' \<or> p = ''design'' \<or> p = ''proto'')"

text \<open>The loop over \<open>pathParts\<close>: the part after the first one that is a keyword;
  \<open>None\<close> is \<open>null\<close> (no keyword) or \<open>undefined\<close> (the keyword is the last part).\<close>

fun find_fileKey :: "string list \<Rightarrow> string option" where
  "find_fileKey [] = None"
| "find_fileKey (p # ps) =
     (if is_kind p then (case ps of [] \<Rightarrow> None | q # qs \<Rightarrow> Some q) else find_fileKey ps)"

definition designRef_of :: "url \<Rightarrow> designRef option" where
  "designRef_of urlObj =
     (let pathParts = split_char CHR ''/'' (pathname urlObj);
          fk = find_fileKey pathParts
      in if \<not> truthy fk then None
         else let rawNodeId = map_of (searchParams urlObj) ''node-id'';
                  nid = (if truthy rawNodeId then Some (hyphens_to_colons (the rawNodeId))
                         else None)
              in Some \<lparr>fileKey = the fk, nodeId = nid\<rparr>)"

definition parseFigmaUrl :: "(string \<Rightarrow> url option) \<Rightarrow> string \<Rightarrow> exn + designRef option" where
  "parseFigmaUrl new_URL u =
     (case new_URL u of
        None \<Rightarrow> Inl (TypeError ''Invalid URL'')
      | Some urlObj \<Rightarrow> Inr (designRef_of urlObj))"

text \<open>
  The \<open>URL\<close> objects of three inputs, by the URL standard:
  \<open>https://figma.com/design/ABC123/Name?node-id=1-2\<close>,
  \<open>https://figma.com/design/\<close> and \<open>https://figma.com/files/ABC123\<close>.
\<close>

definition design_url :: url where
  "design_url = \<lparr>pathname = ''/design/ABC123/Name'', searchParams = [(''node-id'', ''1-2'')]\<rparr>"

definition design_only_url :: url where
  "design_only_url = \<lparr>pathname = ''/design/'', searchParams = []\<rparr>"

definition files_url :: url where
  "files_url = \<lparr>pathname = ''/files/ABC123'', searchParams = []\<rparr>"

subsection \<open>Sample inputs\<close>

definition sample_text :: string where
  "sample_text = ''(EF-4) see https://a.net/browse/CD-3 and AB-12, AB-12''"

section \<open>The design export: \<open>fetchFigmaDesign\<close>\<close>

text \<open>
  The JSON that the design backend answers, as far as the code reads it: the name and
  the modification date of a file, the documents of the nodes asked for, and the URLs of
  the rendered images, each by node identifier. A field that is missing is \<open>None\<close>, a
  table without an entry for an identifier gives \<open>undefined\<close> there. Sizes are JSON
  numbers.
\<close>

record bbox =
  width :: rat
  height :: rat

record figma_child =
  child_type :: string
  child_id :: string
  child_name :: "string option"
  child_bbox :: "bbox option"

record figma_document =
  doc_name :: string
  doc_bbox :: "bbox option"
  doc_children :: "figma_child list option"

record json_body =
  name :: "string option"
  lastModified :: "string option"
  nodes :: "(string \<times> figma_document) list"
  images :: "(string \<times> string) list"

text \<open>The body of a response: what \<open>json()\<close> gives or throws, and what \<open>buffer()\<close>
  gives.\<close>

record body =
  json :: "exn + json_body"
  buffer :: bytes

text \<open>
  The world outside: the ticket backend behind \<open>fetchJira\<close> (\<open>jira\<close>) and the network
  behind \<open>fetch\<close> (\<open>http\<close>), each giving the outcome of the call made when \<open>n\<close> calls have been made
  before; the URL constructor; whether the design backend is configured; the rendering
  of dates in the local format; and the home directory.
\<close>

record issue_ref =
  ref_key :: string
  ref_summary :: "string option"
  ref_status :: "string option"
  ref_issuetype :: "string option"

record issuelink =
  outwardIssue :: "issue_ref option"
  inwardIssue :: "issue_ref option"
  type_outward :: string
  type_inward :: string

record comment =
  author :: "string option"
  created :: string
  comment_body :: adf
  comment_id :: string

record attachment =
  filename :: string
  mimeType :: "string option"
  size_bytes :: nat
  att_content :: string

record issue =
  summary :: string
  issue_status :: "string option"
  issuetype :: "string option"
  priority :: "string option"
  assignee :: "string option"
  reporter :: "string option"
  sprint :: "string option"
  parent :: "issue_ref option"
  subtasks :: "issue_ref list"
  description :: adf
  comments :: "comment list"
  attachments :: "attachment list"
  issuelinks :: "issuelink list"

record env =
  jira :: "nat \<Rightarrow> string \<Rightarrow> exn + issue"
  http :: "nat \<Rightarrow> string \<Rightarrow> exn + body response"
  construct_URL :: "string \<Rightarrow> url option"
  figmaConfig :: bool
  toLocaleString :: "string \<Rightarrow> string"
  home :: string

fun message :: "exn \<Rightarrow> string" where
  "message (Error m) = m"
| "message (TypeError m) = m"

definition nl :: string where
  "nl = [newline]"

text \<open>\<open>encodeURIComponent\<close> on code units below \<open>0x100\<close>: letters, digits and
  \<open>-_.!~*'()\<close> stay, every other character becomes the bytes of its UTF-8 form, each
  as a percent sign and two capital hexadecimal digits.\<close>

definition hex_digit :: "nat \<Rightarrow> char" where
  "hex_digit d = ''0123456789ABCDEF'' ! d"

definition percent :: "nat \<Rightarrow> string" where
  "percent b = [CHR ''%'', hex_digit (b div 16), hex_digit (b mod 16)]"

definition is_unreserved :: "char \<Rightarrow> bool" where
  "is_unreserved c = (is_alnum c \<or> c \<in> set ''-_.!~*()'' \<or> c = CHR 0x27)"

definition encode_char :: "char \<Rightarrow> string" where
  "encode_char c =
     (if is_unreserved c then [c]
      else if (of_char c :: nat) < 128 then percent (of_char c)
      else percent (192 + of_char c div 64) @ percent (128 + of_char c mod 64))"

definition encodeURIComponent :: "string \<Rightarrow> string" where
  "encodeURIComponent s = concat (map encode_char s)"

text \<open>\<open>ids.join(",")\<close>.\<close>

fun join :: "string \<Rightarrow> string list \<Rightarrow> string" where
  "join sep [] = []"
| "join sep [p] = p"
| "join sep (p # q # ps) = p @ sep @ join sep (q # ps)"

text \<open>What \<open>fetchFigmaDesign\<close> returns: an error as data, or the design with its
  exported images.\<close>

record figma_image =
  img_buffer :: bytes
  img_path :: string
  img_name :: string

record design =
  d_name :: "string option"
  d_lastModified :: "string option"
  d_url :: string
  d_nodeId :: "string option"
  d_nodeName :: "string option"
  d_images :: "figma_image list"

datatype figma_result = DesignError string | Design design

definition figmaExportsDir :: "env \<Rightarrow> string" where
  "figmaExportsDir e = home e @ ''/.config/figma-mcp/exports''"

text \<open>The path of an exported image: \<open>path.join(figmaExportsDir,
  `${fileKey}_${sanitizedId}.png`)\<close>.\<close>

definition export_path :: "env \<Rightarrow> string \<Rightarrow> string \<Rightarrow> string" where
  "export_path e fk ident = figmaExportsDir e @ ''/'' @ fk @ ''_'' @ sanitize ident @ ''.png''"

text \<open>
  The download of one rendered image, the same lines in both branches of the export:
  \<open>fetch(imageUrl)\<close>, and for an \<open>ok\<close> response \<open>writeFileSync\<close> of its buffer
  under the export path and the image for the result. There is no test of whether the
  file exists. A transport exception is passed on; the branches differ in who catches it.
\<close>

definition save_image ::
  "env \<Rightarrow> string \<Rightarrow> string \<Rightarrow> string \<Rightarrow> string \<Rightarrow> state \<Rightarrow> (exn + figma_image option) \<times> state" where
  "save_image e fk ident imageUrl nm st =
     (let st1 = st\<lparr>requests := requests st @ [imageUrl]\<rparr> in
      case http e (length (requests st)) imageUrl of
        Inl ex \<Rightarrow> (Inl ex, st1)
      | Inr downloadRes \<Rightarrow>
          if ok downloadRes
          then (Inr (Some \<lparr>img_buffer = buffer (body downloadRes),
                              img_path = export_path e fk ident, img_name = nm\<rparr>),
                st1\<lparr>files := (files st1)(export_path e fk ident \<mapsto> buffer (body downloadRes))\<rparr>)
          else (Inr None, st1))"

text \<open>The children that can be exported: of one of four types and at least 100 by
  100.\<close>

definition isExportable :: "figma_child \<Rightarrow> bool" where
  "isExportable c = (child_type c \<in> set [''FRAME'', ''COMPONENT'', ''GROUP'', ''SECTION''])"

definition hasSize :: "figma_child \<Rightarrow> bool" where
  "hasSize c = (case child_bbox c of None \<Rightarrow> False | Some b \<Rightarrow> width b \<ge> 100 \<and> height b \<ge> 100)"

definition exportableChildren :: "figma_document \<Rightarrow> figma_child list" where
  "exportableChildren doc =
     (case doc_children doc of
        None \<Rightarrow> []
      | Some cs \<Rightarrow> filter (\<lambda>c. isExportable c \<and> hasSize c) cs)"

definition isLarge :: "figma_document \<Rightarrow> bool" where
  "isLarge doc = (case doc_bbox doc of None \<Rightarrow> False | Some b \<Rightarrow> width b > 1500 \<or> height b > 2000)"

text \<open>The name of the image of a child: \<open>childInfo?.name || childId\<close>, for the first
  exportable child with that identifier.\<close>

definition child_image_name :: "figma_child list \<Rightarrow> string \<Rightarrow> string" where
  "child_image_name cs ident =
     (case find (\<lambda>c. child_id c = ident) cs of
        None \<Rightarrow> ident
      | Some c \<Rightarrow> or_else (child_name c) ident)"

text \<open>The loop over the identifiers of the children: a child without an image URL is
  passed over, and so is one whose download throws or is not \<open>ok\<close>.\<close>

fun export_children ::
  "env \<Rightarrow> string \<Rightarrow> (string \<times> string) list \<Rightarrow> figma_child list \<Rightarrow> string list
     \<Rightarrow> figma_image list \<Rightarrow> state \<Rightarrow> figma_image list \<times> state" where
  "export_children e fk imgs cs [] acc st = (acc, st)"
| "export_children e fk imgs cs (childId # rest) acc st =
     (if truthy (map_of imgs childId)
      then (case save_image e fk childId (the (map_of imgs childId)) (child_image_name cs childId) st of
              (Inr (Some img), st') \<Rightarrow> export_children e fk imgs cs rest (acc @ [img]) st'
            | (_, st') \<Rightarrow> export_children e fk imgs cs rest acc st')
      else export_children e fk imgs cs rest acc st)"

definition images_url :: "string \<Rightarrow> string \<Rightarrow> string" where
  "images_url fk ids =
     ''https://api.figma.com/v1/images/'' @ fk @ ''?ids='' @ encodeURIComponent ids
       @ ''&format=png&scale=2''"

text \<open>The export of the children of a large frame, and of a whole node. Each asks for
  the image URLs first; a response that is rate limited or not \<open>ok\<close> exports
  nothing.\<close>

definition export_large ::
  "env \<Rightarrow> string \<Rightarrow> figma_document \<Rightarrow> state \<Rightarrow> (exn + figma_image list) \<times> state" where
  "export_large e fk doc st =
     (let childIds = map child_id (take 8 (exportableChildren doc)) in
      case figmaFetchWithRetry (http e) (images_url fk (join '','' childIds)) 3 30 st of
        (Inl ex, st1) \<Rightarrow> (Inl ex, st1)
      | (Inr (RateLimited w), st1) \<Rightarrow> (Inr [], st1)
      | (Inr (Response imgRes), st1) \<Rightarrow>
          if ok imgRes
          then (case json (body imgRes) of
                  Inl ex \<Rightarrow> (Inl ex, st1)
                | Inr imgData \<Rightarrow>
                    (case export_children e fk (images imgData) (exportableChildren doc)
                            childIds [] st1 of
                       (imgs, st2) \<Rightarrow> (Inr imgs, st2)))
          else (Inr [], st1))"

definition export_whole ::
  "env \<Rightarrow> string \<Rightarrow> string \<Rightarrow> figma_document \<Rightarrow> state \<Rightarrow> (exn + figma_image list) \<times> state" where
  "export_whole e fk nid doc st =
     (case figmaFetchWithRetry (http e) (images_url fk nid) 3 30 st of
        (Inl ex, st1) \<Rightarrow> (Inl ex, st1)
      | (Inr (RateLimited w), st1) \<Rightarrow> (Inr [], st1)
      | (Inr (Response imgRes), st1) \<Rightarrow>
          if ok imgRes
          then (case json (body imgRes) of
                  Inl ex \<Rightarrow> (Inl ex, st1)
                | Inr imgData \<Rightarrow>
                    if truthy (map_of (images imgData) nid)
                    then (case save_image e fk nid (the (map_of (images imgData) nid))
                                 (doc_name doc) st1 of
                            (Inl ex, st2) \<Rightarrow> (Inl ex, st2)
                          | (Inr None, st2) \<Rightarrow> (Inr [], st2)
                          | (Inr (Some img), st2) \<Rightarrow> (Inr [img], st2))
                    else (Inr [], st1))
          else (Inr [], st1))"

text \<open>The part for a given node: its name and its images, when the node is found.\<close>

definition export_node ::
  "env \<Rightarrow> string \<Rightarrow> string \<Rightarrow> state \<Rightarrow> (exn + string option \<times> figma_image list) \<times> state" where
  "export_node e fk nid st =
     (case figmaFetchWithRetry (http e)
             (''https://api.figma.com/v1/files/'' @ fk @ ''/nodes?ids='' @ encodeURIComponent nid
                @ ''&depth=2'') 3 30 st of
        (Inl ex, st1) \<Rightarrow> (Inl ex, st1)
      | (Inr (RateLimited w), st1) \<Rightarrow> (Inr (None, []), st1)
      | (Inr (Response nodeRes), st1) \<Rightarrow>
          if ok nodeRes
          then (case json (body nodeRes) of
                  Inl ex \<Rightarrow> (Inl ex, st1)
                | Inr nodeData \<Rightarrow>
                    (case map_of (nodes nodeData) nid of
                       None \<Rightarrow> (Inr (None, []), st1)
                     | Some doc \<Rightarrow>
                         (case (if isLarge doc \<and> exportableChildren doc \<noteq> []
                                then export_large e fk doc st1
                                else export_whole e fk nid doc st1) of
                            (Inl ex, st2) \<Rightarrow> (Inl ex, st2)
                          | (Inr imgs, st2) \<Rightarrow> (Inr (Some (doc_name doc), imgs), st2))))
          else (Inr (None, []), st1))"

text \<open>The \<open>try\<close> block of \<open>fetchFigmaDesign\<close>.\<close>

definition design_try ::
  "env \<Rightarrow> string \<Rightarrow> designRef \<Rightarrow> state \<Rightarrow> (exn + figma_result) \<times> state" where
  "design_try e u r st =
     (case figmaFetchWithRetry (http e)
             (''https://api.figma.com/v1/files/'' @ fileKey r @ ''?depth=1'') 3 30 st of
        (Inl ex, st1) \<Rightarrow> (Inl ex, st1)
      | (Inr (RateLimited w), st1) \<Rightarrow>
          (Inr (DesignError (''Figma API rate limit exceeded. Try again in '' @ w @ '' seconds.'')),
           st1)
      | (Inr (Response fileRes), st1) \<Rightarrow>
          if \<not> ok fileRes
          then (Inr (DesignError
                  (if status fileRes = 403
                   then ''Figma access denied. Check your token or file permissions.''
                   else if status fileRes = 404 then ''Figma file not found. Check the URL.''
                   else ''Figma API error: '' @ show_nat (status fileRes))), st1)
          else (case json (body fileRes) of
                  Inl ex \<Rightarrow> (Inl ex, st1)
                | Inr fileData \<Rightarrow>
                    if \<not> truthy (nodeId r)
                    then (Inr (Design \<lparr>d_name = name fileData,
                                 d_lastModified = lastModified fileData, d_url = u,
                                 d_nodeId = nodeId r, d_nodeName = None, d_images = []\<rparr>), st1)
                    else (case export_node e (fileKey r) (the (nodeId r)) st1 of
                            (Inl ex, st2) \<Rightarrow> (Inl ex, st2)
                          | (Inr (nm, imgs), st2) \<Rightarrow>
                              (Inr (Design \<lparr>d_name = name fileData,
                                      d_lastModified = lastModified fileData, d_url = u,
                                      d_nodeId = nodeId r, d_nodeName = nm, d_images = imgs\<rparr>),
                               st2))))"

text \<open>
  \<open>fetchFigmaDesign(url)\<close>. The URL is parsed before the \<open>try\<close> block, so an
  exception of the URL constructor leaves the function; every exception inside the block
  is caught and returned as an error.
\<close>

definition fetchFigmaDesign :: "env \<Rightarrow> string \<Rightarrow> state \<Rightarrow> (exn + figma_result) \<times> state" where
  "fetchFigmaDesign e u st =
     (if \<not> figmaConfig e
      then (Inr (DesignError ''Figma not configured. Run: node ~/.config/figma-mcp/setup.js''), st)
      else (case parseFigmaUrl (construct_URL e) u of
              Inl ex \<Rightarrow> (Inl ex, st)
            | Inr None \<Rightarrow> (Inr (DesignError ''Invalid Figma URL''), st)
            | Inr (Some r) \<Rightarrow>
                (case design_try e u r st of
                   (Inl ex, st1) \<Rightarrow> (Inr (DesignError (''Figma fetch failed: '' @ message ex)), st1)
                 | (Inr res, st1) \<Rightarrow> (Inr res, st1))))"

section \<open>Attachments: \<open>downloadAttachment\<close>\<close>

definition attachment_path :: "env \<Rightarrow> string \<Rightarrow> string \<Rightarrow> string" where
  "attachment_path e issueKey fname =
     home e @ ''/.config/jira-mcp/attachments/'' @ issueKey @ ''/'' @ fname"

text \<open>A file that exists is returned as it is, with no request; otherwise the
  attachment is fetched, and written when the response is \<open>ok\<close>.\<close>

definition downloadAttachment ::
  "env \<Rightarrow> string \<Rightarrow> string \<Rightarrow> string \<Rightarrow> state \<Rightarrow> (exn + string) \<times> state" where
  "downloadAttachment e u fname issueKey st =
     (let localPath = attachment_path e issueKey fname in
      if files st localPath \<noteq> None then (Inr localPath, st)
      else let st1 = st\<lparr>requests := requests st @ [u]\<rparr> in
        (case http e (length (requests st)) u of
           Inl ex \<Rightarrow> (Inl ex, st1)
         | Inr response \<Rightarrow>
             if \<not> ok response
             then (Inl (Error (''Failed to download '' @ fname @ '': '' @ show_nat (status response))),
                   st1)
             else (Inr localPath, st1\<lparr>files := (files st1)(localPath \<mapsto> buffer (body response))\<rparr>)))"

subsection \<open>Sample inputs\<close>

text \<open>
  A design backend that answers every request with status 200 and one JSON body (a file
  name, the document of node \<open>1:2\<close>, 800 by 600, and the URL of its image) and the bytes
  \<open>new\<close>; a URL constructor known at the design URL of the specification; and a state
  in which the export file of node \<open>1:2\<close> exists already, with the bytes \<open>old\<close>.
\<close>

definition sample_json :: json_body where
  "sample_json =
     \<lparr>name = Some ''Design'', lastModified = Some ''2024-01-01'',
      nodes = [(''1:2'', \<lparr>doc_name = ''Frame'',
                            doc_bbox = Some \<lparr>width = 800, height = 600\<rparr>,
                            doc_children = None\<rparr>)],
      images = [(''1:2'', ''https://img.example/1'')]\<rparr>"

definition sample_env :: env where
  "sample_env =
     \<lparr>jira = (\<lambda>n endpoint. Inl (Error ''Jira API error: 404 Not Found'')),
      http = (\<lambda>n u. Inr \<lparr>status = 200, retry_after = Absent,
                            body = \<lparr>json = Inr sample_json, buffer = ''new''\<rparr>\<rparr>),
      construct_URL = [''https://figma.com/design/ABC123/Name?node-id=1-2'' \<mapsto> design_url],
      figmaConfig = True,
      toLocaleString = (\<lambda>d. d),
      home = ''/home/u''\<rparr>"


section \<open>The aggregation: \<open>getTicket\<close>\<close>

text \<open>\<open>fetchJira(endpoint)\<close>: the call is written into the state, and its outcome is an
  issue or an exception.\<close>

definition fetchJira :: "env \<Rightarrow> string \<Rightarrow> state \<Rightarrow> (exn + issue) \<times> state" where
  "fetchJira e endpoint st =
     (jira e (length (jira_calls st)) endpoint, st\<lparr>jira_calls := jira_calls st @ [endpoint]\<rparr>)"

text \<open>The two endpoints that \<open>getTicket\<close> asks for a key.\<close>

definition issue_expanded :: "string \<Rightarrow> string" where
  "issue_expanded k = ''/issue/'' @ k @ ''?expand=renderedFields''"

definition issue_plain :: "string \<Rightarrow> string" where
  "issue_plain k = ''/issue/'' @ k"

text \<open>\<open>x.text && x.text.trim()\<close> as a condition.\<close>

definition nonblank :: "string \<Rightarrow> bool" where
  "nonblank s = (trim s \<noteq> [])"

text \<open>A missing value in a template literal.\<close>

definition or_undefined :: "string option \<Rightarrow> string" where
  "or_undefined x = (case x of None \<Rightarrow> ''undefined'' | Some s \<Rightarrow> s)"

definition comment_text :: "comment \<Rightarrow> string" where
  "comment_text c = fst (extractText (comment_body c) [])"

definition comment_urls :: "comment \<Rightarrow> string list" where
  "comment_urls c = snd (extractText (comment_body c) [])"

text \<open>The lines with status, type, priority and assignee of a fetched issue, the same
  for the parent, a linked issue and a referenced ticket.\<close>

definition status_lines :: "issue \<Rightarrow> string" where
  "status_lines f =
     ''Status: '' @ or_else (issue_status f) ''Unknown'' @ '' | ''
     @ ''Type: '' @ or_else (issuetype f) ''Unknown'' @ '' | ''
     @ ''Priority: '' @ or_else (priority f) ''None'' @ nl
     @ ''Assignee: '' @ or_else (assignee f) ''Unassigned'' @ nl @ nl"

text \<open>A comment of the parent, of a linked issue or of a referenced ticket.\<close>

definition brief_comment :: "env \<Rightarrow> comment \<Rightarrow> string" where
  "brief_comment e c =
     ''**'' @ or_else (author c) ''Unknown'' @ ''** - '' @ toLocaleString e (created c) @ nl
     @ comment_text c @ nl @ nl"

text \<open>The description and the comments of a fetched issue, under headings of the given
  level.\<close>

definition details :: "env \<Rightarrow> string \<Rightarrow> issue \<Rightarrow> string" where
  "details e level f =
     (if nonblank (fst (extractText (description f) []))
      then level @ '' Description'' @ nl @ fst (extractText (description f) []) @ nl
      else [])
     @ (if comments f \<noteq> []
        then nl @ level @ '' Comments ('' @ show_nat (length (comments f)) @ '')'' @ nl
             @ concat (map (brief_comment e) (comments f))
        else [])"

subsection \<open>The head of the report\<close>

definition header :: "string \<Rightarrow> issue \<Rightarrow> string" where
  "header issueKey f =
     ''# '' @ issueKey @ '': '' @ summary f @ nl @ nl
     @ ''**Status:** '' @ or_else (issue_status f) ''Unknown'' @ nl
     @ ''**Type:** '' @ or_else (issuetype f) ''Unknown'' @ nl
     @ ''**Priority:** '' @ or_else (priority f) ''None'' @ nl
     @ ''**Assignee:** '' @ or_else (assignee f) ''Unassigned'' @ nl
     @ ''**Reporter:** '' @ or_else (reporter f) ''Unknown'' @ nl
     @ (case sprint f of None \<Rightarrow> [] | Some s \<Rightarrow> ''**Sprint:** '' @ s @ nl)
     @ (case parent f of
          None \<Rightarrow> []
        | Some p \<Rightarrow> ''**Parent:** '' @ ref_key p @ '' - '' @ or_else (ref_summary p) [] @ nl)
     @ (if subtasks f \<noteq> [] then ''**Subtasks:** '' @ show_nat (length (subtasks f)) @ nl else [])
     @ nl @ ''## Description'' @ nl @ nl
     @ or_else (Some (fst (extractText (description f) []))) ''_No description_'' @ nl"

subsection \<open>The parent\<close>

text \<open>The section of the parent: its text for the report, what it adds to \<open>allText\<close>
  and to \<open>allUrls\<close>, and the state after the fetch. A failure of the fetch is written
  into the report.\<close>

definition parent_section ::
  "env \<Rightarrow> issue \<Rightarrow> state \<Rightarrow> string \<times> string \<times> string list \<times> state" where
  "parent_section e f st =
     (case parent f of
        None \<Rightarrow> ([], [], [], st)
      | Some p \<Rightarrow>
          (case fetchJira e (issue_expanded (ref_key p)) st of
             (Inl ex, st1) \<Rightarrow>
               (nl @ ''## Parent Ticket: '' @ ref_key p @ nl @ nl
                @ ''_Could not fetch parent details: '' @ message ex @ ''_'' @ nl @ nl,
                [], [], st1)
           | (Inr pf, st1) \<Rightarrow>
               (nl @ ''## Parent Ticket: '' @ ref_key p @ nl @ nl
                @ ''**'' @ summary pf @ ''**'' @ nl @ status_lines pf
                @ details e ''###'' pf
                @ nl @ ''---'' @ nl @ nl,
                (if nonblank (fst (extractText (description pf) []))
                 then '' '' @ fst (extractText (description pf) []) else [])
                @ concat (map (\<lambda>c. '' '' @ comment_text c) (comments pf)),
                (if nonblank (fst (extractText (description pf) []))
                 then snd (extractText (description pf) []) else []),
                st1)))"

subsection \<open>The comments\<close>

definition full_comment :: "env \<Rightarrow> comment \<Rightarrow> string" where
  "full_comment e c =
     ''### '' @ or_else (author c) ''Unknown'' @ '' - '' @ toLocaleString e (created c)
     @ '' (id: '' @ comment_id c @ '')'' @ nl
     @ comment_text c @ nl @ nl"

definition comments_section :: "env \<Rightarrow> issue \<Rightarrow> string \<times> string \<times> string list" where
  "comments_section e f =
     (if comments f = [] then ([], [], [])
      else (nl @ ''## Comments ('' @ show_nat (length (comments f)) @ '')'' @ nl @ nl
            @ concat (map (full_comment e) (comments f)),
            concat (map (\<lambda>c. '' '' @ comment_text c) (comments f)),
            concat (map comment_urls (comments f))))"

subsection \<open>The attachments\<close>

definition isImage :: "attachment \<Rightarrow> bool" where
  "isImage a = (case mimeType a of None \<Rightarrow> False | Some m \<Rightarrow> startsWith m ''image/'')"

text \<open>\<open>Math.round(att.size / 1024)\<close>.\<close>

definition size_kb :: "attachment \<Rightarrow> nat" where
  "size_kb a = (size_bytes a + 512) div 1024"

text \<open>One attachment: its lines, the local path when it was downloaded, and the state.
  A failure of the download is written into the report.\<close>

definition attachment_item ::
  "env \<Rightarrow> string \<Rightarrow> bool \<Rightarrow> attachment \<Rightarrow> state \<Rightarrow> string \<times> string list \<times> state" where
  "attachment_item e issueKey downloadImages a st =
     (if downloadImages \<and> isImage a
      then (case downloadAttachment e (att_content a) (filename a) issueKey st of
              (Inr localPath, st1) \<Rightarrow>
                (''- **'' @ filename a @ ''** ('' @ or_undefined (mimeType a) @ '', ''
                 @ show_nat (size_kb a) @ ''KB)'' @ nl
                 @ ''  Local: '' @ localPath @ nl, [localPath], st1)
            | (Inl ex, st1) \<Rightarrow>
                (''- **'' @ filename a @ ''** ('' @ or_undefined (mimeType a) @ '', ''
                 @ show_nat (size_kb a) @ ''KB)'' @ nl
                 @ ''  Download failed: '' @ message ex @ nl, [], st1))
      else (''- **'' @ filename a @ ''** ('' @ or_undefined (mimeType a) @ '', ''
            @ show_nat (size_kb a) @ ''KB)'' @ nl
            @ ''  URL: '' @ att_content a @ nl, [], st))"

fun attachments_loop ::
  "env \<Rightarrow> string \<Rightarrow> bool \<Rightarrow> attachment list \<Rightarrow> state \<Rightarrow> string \<times> string list \<times> state" where
  "attachments_loop e issueKey downloadImages [] st = ([], [], st)"
| "attachments_loop e issueKey downloadImages (a # rest) st =
     (case attachment_item e issueKey downloadImages a st of
        (out1, paths1, st1) \<Rightarrow>
          (case attachments_loop e issueKey downloadImages rest st1 of
             (out2, paths2, st2) \<Rightarrow> (out1 @ out2, paths1 @ paths2, st2)))"

definition attachments_section ::
  "env \<Rightarrow> string \<Rightarrow> bool \<Rightarrow> issue \<Rightarrow> state \<Rightarrow> string \<times> string list \<times> state" where
  "attachments_section e issueKey downloadImages f st =
     (if attachments f = [] then ([], [], st)
      else (case attachments_loop e issueKey downloadImages (attachments f) st of
              (out, paths, st1) \<Rightarrow>
                (nl @ ''## Attachments ('' @ show_nat (length (attachments f)) @ '')'' @ nl @ nl
                 @ out, paths, st1)))"

subsection \<open>The subtasks\<close>

text \<open>One subtask: every subtask is fetched, and its description cut at 300
  characters. A failure of the fetch leaves an empty line.\<close>

definition subtask_item :: "env \<Rightarrow> issue_ref \<Rightarrow> state \<Rightarrow> string \<times> state" where
  "subtask_item e s st =
     (case fetchJira e (issue_plain (ref_key s)) st of
        (Inl ex, st1) \<Rightarrow>
          (''### '' @ ref_key s @ '': '' @ or_else (ref_summary s) [] @ nl
           @ ''Status: '' @ or_else (ref_status s) ''Unknown'' @ '' | ''
           @ ''Type: '' @ or_else (ref_issuetype s) ''Subtask'' @ nl
           @ nl, st1)
      | (Inr sf, st1) \<Rightarrow>
          (''### '' @ ref_key s @ '': '' @ or_else (ref_summary s) [] @ nl
           @ ''Status: '' @ or_else (ref_status s) ''Unknown'' @ '' | ''
           @ ''Type: '' @ or_else (ref_issuetype s) ''Subtask'' @ nl
           @ (case assignee sf of None \<Rightarrow> [] | Some a \<Rightarrow> ''Assignee: '' @ a @ nl)
           @ (if nonblank (fst (extractText (description sf) []))
              then nl
                   @ (if length (fst (extractText (description sf) [])) > 300
                      then take 300 (fst (extractText (description sf) [])) @ ''...''
                      else fst (extractText (description sf) []))
                   @ nl
              else [])
           @ nl, st1))"

fun subtasks_loop :: "env \<Rightarrow> issue_ref list \<Rightarrow> state \<Rightarrow> string \<times> state" where
  "subtasks_loop e [] st = ([], st)"
| "subtasks_loop e (s # rest) st =
     (case subtask_item e s st of
        (out1, st1) \<Rightarrow>
          (case subtasks_loop e rest st1 of (out2, st2) \<Rightarrow> (out1 @ out2, st2)))"

definition subtasks_section :: "env \<Rightarrow> issue \<Rightarrow> state \<Rightarrow> string \<times> state" where
  "subtasks_section e f st =
     (if subtasks f = [] then ([], st)
      else (case subtasks_loop e (subtasks f) st of
              (out, st1) \<Rightarrow>
                (nl @ ''## Subtasks ('' @ show_nat (length (subtasks f)) @ '')'' @ nl @ nl @ out,
                 st1)))"

subsection \<open>The linked issues\<close>

record linked =
  linked_key :: string
  relation :: string
  linked_summary :: string

text \<open>\<open>linkedIssues\<close>: for every link its outward issue, then its inward issue, when
  they are there.\<close>

definition linkedIssues :: "issue \<Rightarrow> linked list" where
  "linkedIssues f =
     concat (map (\<lambda>link.
        (case outwardIssue link of
           None \<Rightarrow> []
         | Some i \<Rightarrow> [\<lparr>linked_key = ref_key i, relation = type_outward link,
                        linked_summary = or_else (ref_summary i) []\<rparr>])
        @ (case inwardIssue link of
             None \<Rightarrow> []
           | Some i \<Rightarrow> [\<lparr>linked_key = ref_key i, relation = type_inward link,
                          linked_summary = or_else (ref_summary i) []\<rparr>]))
       (issuelinks f))"

definition linked_item :: "env \<Rightarrow> linked \<Rightarrow> state \<Rightarrow> string \<times> state" where
  "linked_item e l st =
     (case fetchJira e (issue_expanded (linked_key l)) st of
        (Inl ex, st1) \<Rightarrow>
          (''### '' @ relation l @ '': '' @ linked_key l @ nl
           @ ''**'' @ linked_summary l @ ''**'' @ nl @ nl
           @ ''_Could not fetch details: '' @ message ex @ ''_'' @ nl @ nl, st1)
      | (Inr lf, st1) \<Rightarrow>
          (''### '' @ relation l @ '': '' @ linked_key l @ nl
           @ ''**'' @ linked_summary l @ ''**'' @ nl @ nl
           @ status_lines lf @ details e ''####'' lf
           @ nl @ ''---'' @ nl @ nl, st1))"

fun linked_loop :: "env \<Rightarrow> linked list \<Rightarrow> state \<Rightarrow> string \<times> state" where
  "linked_loop e [] st = ([], st)"
| "linked_loop e (l # rest) st =
     (case linked_item e l st of
        (out1, st1) \<Rightarrow>
          (case linked_loop e rest st1 of (out2, st2) \<Rightarrow> (out1 @ out2, st2)))"

definition maxLinkedToFetch :: nat where
  "maxLinkedToFetch = 10"

definition linked_section :: "env \<Rightarrow> issue \<Rightarrow> state \<Rightarrow> string \<times> state" where
  "linked_section e f st =
     (if issuelinks f = [] then ([], st)
      else (case linked_loop e (take maxLinkedToFetch (linkedIssues f)) st of
              (out, st1) \<Rightarrow>
                (nl @ ''## Linked Issues ('' @ show_nat (length (issuelinks f)) @ '')'' @ nl @ nl
                 @ out
                 @ (if length (linkedIssues f) > maxLinkedToFetch
                    then nl @ ''_...and ''
                         @ show_nat (length (linkedIssues f) - maxLinkedToFetch)
                         @ '' more linked issues_'' @ nl
                    else []),
                 st1)))"

subsection \<open>The tickets referenced in the text\<close>

text \<open>\<open>alreadyFetched\<close>: the key of the issue, of its parent, of its subtasks and of
  the issues of its links.\<close>

definition alreadyFetched :: "string \<Rightarrow> issue \<Rightarrow> string list" where
  "alreadyFetched issueKey f =
     issueKey # (case parent f of None \<Rightarrow> [] | Some p \<Rightarrow> [ref_key p])
     @ map ref_key (subtasks f) @ map linked_key (linkedIssues f)"

definition ticketsToFetch :: "string \<Rightarrow> issue \<Rightarrow> string \<Rightarrow> string list" where
  "ticketsToFetch issueKey f allText =
     filter (\<lambda>k. k \<notin> set (alreadyFetched issueKey f)) (findJiraTicketKeys allText (Some issueKey))"

text \<open>One referenced ticket: its text for the report, what it adds to \<open>allText\<close> (its
  description, when that holds a Figma URL), and the state.\<close>

definition referenced_item :: "env \<Rightarrow> string \<Rightarrow> state \<Rightarrow> string \<times> string \<times> state" where
  "referenced_item e refKey st =
     (case fetchJira e (issue_expanded refKey) st of
        (Inl ex, st1) \<Rightarrow>
          (''### '' @ refKey @ nl @ ''_Could not fetch: '' @ message ex @ ''_'' @ nl @ nl, [], st1)
      | (Inr rf, st1) \<Rightarrow>
          (''### '' @ refKey @ '': '' @ summary rf @ nl
           @ status_lines rf @ details e ''####'' rf
           @ (if findFigmaUrls (fst (extractText (description rf) [])) \<noteq> []
              then ''**Figma:** ''
                   @ join '', '' (findFigmaUrls (fst (extractText (description rf) []))) @ nl
              else [])
           @ nl @ ''---'' @ nl @ nl,
           (if findFigmaUrls (fst (extractText (description rf) [])) \<noteq> []
            then '' '' @ fst (extractText (description rf) []) else []),
           st1))"

fun referenced_loop :: "env \<Rightarrow> string list \<Rightarrow> state \<Rightarrow> string \<times> string \<times> state" where
  "referenced_loop e [] st = ([], [], st)"
| "referenced_loop e (k # rest) st =
     (case referenced_item e k st of
        (out1, text1, st1) \<Rightarrow>
          (case referenced_loop e rest st1 of
             (out2, text2, st2) \<Rightarrow> (out1 @ out2, text1 @ text2, st2)))"

definition maxReferencedToFetch :: nat where
  "maxReferencedToFetch = 10"

definition referenced_section ::
  "env \<Rightarrow> string list \<Rightarrow> state \<Rightarrow> string \<times> string \<times> state" where
  "referenced_section e tickets st =
     (if tickets = [] then ([], [], st)
      else (case referenced_loop e (take maxReferencedToFetch tickets) st of
              (out, text_added, st1) \<Rightarrow>
                (nl @ ''## Referenced Tickets ('' @ show_nat (length tickets) @ '')'' @ nl @ nl
                 @ ''_Auto-detected from description/comments_'' @ nl @ nl
                 @ out
                 @ (if length tickets > maxReferencedToFetch
                    then ''_...and '' @ show_nat (length tickets - maxReferencedToFetch)
                         @ '' more referenced tickets_'' @ nl
                    else []),
                 text_added, st1)))"

subsection \<open>The designs\<close>

definition design_item :: "string \<Rightarrow> figma_result \<Rightarrow> string" where
  "design_item u res =
     (case res of
        DesignError err \<Rightarrow> ''- '' @ u @ nl @ ''  **Error:** '' @ err @ nl @ nl
      | Design d \<Rightarrow>
          if truthy (d_name d)
          then ''### '' @ the (d_name d)
               @ (if truthy (d_nodeName d) then '' - '' @ the (d_nodeName d) else []) @ nl
               @ ''- URL: '' @ u @ nl
               @ ''- Last Modified: '' @ or_undefined (d_lastModified d) @ nl
               @ (if d_images d \<noteq> []
                  then ''- Exported '' @ show_nat (length (d_images d)) @ '' image(s):'' @ nl
                       @ concat (map (\<lambda>img. ''  - '' @ img_name img @ '': '' @ img_path img @ nl)
                                   (d_images d))
                  else [])
               @ nl
          else ''- '' @ u @ '' (could not fetch)'' @ nl @ nl)"

definition design_kept :: "figma_result \<Rightarrow> design list" where
  "design_kept res =
     (case res of
        DesignError err \<Rightarrow> []
      | Design d \<Rightarrow> if truthy (d_name d) \<and> d_images d \<noteq> [] then [d] else [])"

text \<open>The loop over the design URLs. \<open>fetchFigmaDesign\<close> is awaited outside any
  \<open>try\<close>: an exception that leaves it leaves \<open>getTicket\<close>.\<close>

fun figma_loop :: "env \<Rightarrow> string list \<Rightarrow> state \<Rightarrow> (exn + string \<times> design list) \<times> state" where
  "figma_loop e [] st = (Inr ([], []), st)"
| "figma_loop e (u # rest) st =
     (case fetchFigmaDesign e u st of
        (Inl ex, st1) \<Rightarrow> (Inl ex, st1)
      | (Inr res, st1) \<Rightarrow>
          (case figma_loop e rest st1 of
             (Inl ex, st2) \<Rightarrow> (Inl ex, st2)
           | (Inr (out2, ds2), st2) \<Rightarrow> (Inr (design_item u res @ out2, design_kept res @ ds2), st2)))"

definition allFigmaUrls :: "string \<Rightarrow> string list \<Rightarrow> string list" where
  "allFigmaUrls allText allUrls =
     new_Set (findFigmaUrls allText
              @ filter (\<lambda>u. u \<noteq> [] \<and> str_includes u ''figma.com'') allUrls)"

definition figma_section ::
  "env \<Rightarrow> bool \<Rightarrow> string \<Rightarrow> string list \<Rightarrow> state \<Rightarrow> (exn + string \<times> design list) \<times> state" where
  "figma_section e fetchFigma allText allUrls st =
     (if fetchFigma \<and> figmaConfig e \<and> allFigmaUrls allText allUrls \<noteq> []
      then (case figma_loop e (allFigmaUrls allText allUrls) st of
              (Inl ex, st1) \<Rightarrow> (Inl ex, st1)
            | (Inr (out, ds), st1) \<Rightarrow>
                (Inr (nl @ ''## Figma Designs (''
                      @ show_nat (length (allFigmaUrls allText allUrls)) @ '')'' @ nl @ nl @ out,
                      ds), st1))
      else (Inr ([], []), st))"

subsection \<open>\<open>getTicket\<close>\<close>

record ticket =
  report :: string
  jiraImages :: "string list"
  figmaDesigns :: "design list"

text \<open>\<open>allText\<close> and \<open>allUrls\<close> before the referenced tickets: the description, what
  the parent added and what the comments added.\<close>

definition getTicket ::
  "env \<Rightarrow> string \<Rightarrow> bool \<Rightarrow> bool \<Rightarrow> state \<Rightarrow> (exn + ticket) \<times> state" where
  "getTicket e issueKey downloadImages fetchFigma st =
     (case fetchJira e (issue_expanded issueKey) st of
        (Inl ex, st1) \<Rightarrow> (Inl ex, st1)
      | (Inr f, st1) \<Rightarrow>
     (case parent_section e f st1 of
        (parent_out, parent_text, parent_urls, st2) \<Rightarrow>
     (case comments_section e f of
        (comments_out, comments_text, comments_urls) \<Rightarrow>
     (case attachments_section e issueKey downloadImages f st2 of
        (attachments_out, downloadedImages, st3) \<Rightarrow>
     (case subtasks_section e f st3 of
        (subtasks_out, st4) \<Rightarrow>
     (case linked_section e f st4 of
        (linked_out, st5) \<Rightarrow>
     (case referenced_section e
             (ticketsToFetch issueKey f
                (fst (extractText (description f) []) @ parent_text @ comments_text)) st5 of
        (referenced_out, referenced_text, st6) \<Rightarrow>
     (case figma_section e fetchFigma
             (fst (extractText (description f) []) @ parent_text @ comments_text @ referenced_text)
             (snd (extractText (description f) []) @ parent_urls @ comments_urls) st6 of
        (Inl ex, st7) \<Rightarrow> (Inl ex, st7)
      | (Inr (figma_out, designs), st7) \<Rightarrow>
          (Inr \<lparr>report = header issueKey f @ parent_out @ comments_out @ attachments_out
                          @ subtasks_out @ linked_out @ referenced_out @ figma_out,
                 jiraImages = downloadedImages,
                 figmaDesigns = designs\<rparr>, st7)))))))))"


subsection \<open>Sample inputs\<close>

text \<open>
  An issue without content, and an issue \<open>PROJ-1\<close> whose parent \<open>PROJ-9\<close> is also
  linked to it; a backend that answers \<open>PROJ-1\<close> with the second and every other key
  with the first.
\<close>

definition empty_issue :: issue where
  "empty_issue =
     \<lparr>summary = ''Epic'', issue_status = None, issuetype = None, priority = None,
      assignee = None, reporter = None, sprint = None, parent = None, subtasks = [],
      description = Null, comments = [], attachments = [], issuelinks = []\<rparr>"

definition parent_ref :: issue_ref where
  "parent_ref = \<lparr>ref_key = ''PROJ-9'', ref_summary = Some ''Epic'', ref_status = None,
                  ref_issuetype = None\<rparr>"



text \<open>
  An issue whose description holds a link with the address
  \<open>www.figma.com/file/abc123/Login\<close>, an address without a scheme; and a world with
  that issue, the design backend configured, and a given URL constructor.
\<close>

definition schemeless_link_issue :: issue where
  "schemeless_link_issue =
     empty_issue\<lparr>summary := ''Login page'',
       description := Doc (parent_of ''doc''
         [parent_of ''paragraph'' [linked_text ''design'' ''www.figma.com/file/abc123/Login'']])\<rparr>"

definition schemeless_link_env :: "(string \<Rightarrow> url option) \<Rightarrow> env" where
  "schemeless_link_env U =
     sample_env\<lparr>jira := (\<lambda>n endpoint. Inr schemeless_link_issue), construct_URL := U\<rparr>"

text \<open>
  An issue \<open>PROJ-1\<close> with the parent \<open>PROJ-9\<close> whose description names \<open>PROJ-9\<close> once
  and \<open>PROJ-7\<close> twice, and a backend that answers \<open>PROJ-1\<close> with it and every other
  key with the issue without content.
\<close>

definition referencing_issue :: issue where
  "referencing_issue =
     empty_issue\<lparr>summary := ''Story'', parent := Some parent_ref,
       description := Str ''See PROJ-9, PROJ-7 and PROJ-7 again''\<rparr>"

definition referencing_env :: env where
  "referencing_env =
     sample_env\<lparr>jira := (\<lambda>n endpoint.
        if endpoint = ''/issue/PROJ-1?expand=renderedFields'' then Inr referencing_issue
        else Inr empty_issue)\<rparr>"

section \<open>Properties of \<open>extractText\<close>\<close>

lemma is_media_not: "\<not> is_media ''paragraph''" "\<not> is_card ''paragraph''"
  by (simp_all add: is_media_def is_card_def)

lemma extractText_walk:
  "extractText_node n urls
     = (concat (map walk_text (children n)), urls @ concat (map walk_urls (children n)))"
  "extractText_loop ns acc urls
     = (acc @ concat (map walk_text ns), urls @ concat (map walk_urls ns))"
  "extractText_visit n urls = (walk_text n, urls @ walk_urls n)"
proof (induction n urls and ns acc urls and n urls
        rule: extractText_node_extractText_loop_extractText_visit.induct)
  case (1 ty tx ms ai ax au cs urls)
  then show ?case by (cases cs) (simp_all add: children_def)
next
  case (2 acc urls)
  then show ?case by simp
next
  case (3 n rest acc urls)
  then show ?case by simp
next
  case (4 ty tx ms ai ax au cs urls)
  show ?case
  proof (cases "ty = ''text''")
    case True
    then show ?thesis by simp
  next
    case nt: False
    show ?thesis
    proof (cases "ty = ''paragraph''")
      case True
      with 4(1)[OF nt True] show ?thesis
        by (simp add: children_def is_media_not split: option.splits)
    next
      case np: False
      show ?thesis
      proof (cases "ty = ''hardBreak'' \<or> ty = ''mention'' \<or> is_media ty \<or> is_card ty")
        case True
        with nt np show ?thesis by auto
      next
        case False
        with nt np 4(2) show ?thesis
          by (cases cs) (simp_all add: children_def)
      qed
    qed
  qed
qed


lemma mark_urls_filter: "mark_urls ms = filter (\<lambda>u. u \<noteq> []) (link_hrefs ms)"
  by (induction ms rule: link_hrefs.induct) (auto split: option.splits)

lemma subseq_concat_map:
  "(\<And>x. x \<in> set xs \<Longrightarrow> subseq (f x) (g x)) \<Longrightarrow> subseq (concat (map f xs)) (concat (map g xs))"
  by (induction xs) (auto intro: list_emb_append_mono)

lemma concat_map_cong_urls:
  "(\<And>x. x \<in> set xs \<Longrightarrow> f x = g x) \<Longrightarrow> concat (map f xs) = concat (map g xs)"
  by (induction xs) auto

lemma walk_urls_subseq: "subseq (walk_urls n) (spec_node_urls n)"
proof (induction n rule: spec_node_urls.induct)
  case (1 ty tx ms ai ax au cs)
  define kw where "kw = (case cs of None \<Rightarrow> [] | Some ns \<Rightarrow> concat (map walk_urls ns))"
  define ks where "ks = (case cs of None \<Rightarrow> [] | Some ns \<Rightarrow> concat (map spec_node_urls ns))"
  have kids: "subseq kw ks"
  proof (cases cs)
    case None
    then show ?thesis by (simp add: kw_def ks_def)
  next
    case (Some ns)
    have "subseq (concat (map walk_urls ns)) (concat (map spec_node_urls ns))"
      using 1 Some by (intro subseq_concat_map) simp
    with Some show ?thesis by (simp add: kw_def ks_def)
  qed
  show ?case
  proof (cases "ty = ''text''")
    case True
    have "subseq (filter (\<lambda>u. u \<noteq> []) xs) (xs @ ks)" for xs :: "string list"
      by (rule list_emb_prefix) simp
    with True show ?thesis
      by (cases ms) (simp_all add: mark_urls_filter ks_def[symmetric])
  next
    case nt: False
    show ?thesis
    proof (cases "is_card ty")
      case True
      with nt show ?thesis
        by (cases au) (auto simp add: ks_def[symmetric] is_card_def is_media_def)
    next
      case nc: False
      show ?thesis
      proof (cases "ty = ''hardBreak'' \<or> ty = ''mention'' \<or> is_media ty")
        case False
        with nt nc kids show ?thesis
          by (simp add: ks_def[symmetric] kw_def[symmetric])
      next
        case True
        with nt nc show ?thesis
          by (auto simp add: ks_def[symmetric])
      qed
    qed
  qed
qed

lemma walk_urls_complete:
  "hides_no_url n \<Longrightarrow> [] \<notin> set (spec_node_urls n) \<Longrightarrow> walk_urls n = spec_node_urls n"
proof (induction n rule: spec_node_urls.induct)
  case (1 ty tx ms ai ax au cs)
  define kw where "kw = (case cs of None \<Rightarrow> [] | Some ns \<Rightarrow> concat (map walk_urls ns))"
  define ks where "ks = (case cs of None \<Rightarrow> [] | Some ns \<Rightarrow> concat (map spec_node_urls ns))"
  have kids: "kw = ks"
  proof (cases cs)
    case None
    then show ?thesis by (simp add: kw_def ks_def)
  next
    case (Some ns)
    have "concat (map walk_urls ns) = concat (map spec_node_urls ns)"
    proof (rule concat_map_cong_urls)
      fix x assume x: "x \<in> set ns"
      with Some "1.prems" have "hides_no_url x" "[] \<notin> set (spec_node_urls x)"
        by auto
      with "1.IH"[OF Some x] show "walk_urls x = spec_node_urls x" by simp
    qed
    with Some show ?thesis by (simp add: kw_def ks_def)
  qed
  have hidden: "ks = []" if "\<not> walked ty"
    using that "1.prems"(1) by (cases cs) (simp_all add: ks_def)
  have nonempty: "filter (\<lambda>u. u \<noteq> []) xs = xs" if "[] \<notin> set xs" for xs :: "string list"
    using that by (induction xs) auto
  show ?case
  proof (cases "walked ty")
    case True
    with kids show ?thesis
      by (simp add: walked_def ks_def[symmetric] kw_def[symmetric])
  next
    case False
    note h = hidden[OF False]
    show ?thesis
    proof (cases "ty = ''text''")
      case True
      with h "1.prems"(2) show ?thesis
        by (cases ms) (simp_all add: ks_def[symmetric] mark_urls_filter nonempty)
    next
      case nt: False
      show ?thesis
      proof (cases "is_card ty")
        case True
        have "walk_urls (Node ty tx ms ai ax au cs) = spec_node_urls (Node ty tx ms ai ax au cs)"
          if "is_card ty" "ty \<noteq> ''text''" "ks = []" "[] \<notin> set (spec_node_urls (Node ty tx ms ai ax au cs))"
          using that by (cases au) (auto simp add: ks_def[symmetric] is_card_def is_media_def)
        with True nt h "1.prems"(2) show ?thesis by blast
      next
        case nc: False
        with nt False h show ?thesis
          by (auto simp add: ks_def[symmetric] walked_def)
      qed
    qed
  qed
qed

text \<open>
  C6 (as amended). The URLs that \<open>extractText\<close> returns for a document are URLs of the
  document as the specification lists them, in the same order and no more often: a
  subsequence of them. They are all of them, in document order and with multiplicity,
  when the document hides no URL below a text, hard break, mention, media or card node
  and none of its URLs is the empty string.
\<close>

theorem extractText_urls:
  "subseq (snd (extractText (Doc d) [])) (spec_urls d)
   \<and> ((\<forall>n \<in> set (children d). hides_no_url n) \<and> [] \<notin> set (spec_urls d)
        \<longrightarrow> snd (extractText (Doc d) []) = spec_urls d)"
proof (intro conjI impI)
  have eq: "snd (extractText (Doc d) []) = concat (map walk_urls (children d))"
    by (simp add: extractText_walk)
  have sp: "spec_urls d = concat (map spec_node_urls (children d))"
    by (simp add: spec_urls_def children_def split: option.splits)
  have "subseq (concat (map walk_urls (children d))) (concat (map spec_node_urls (children d)))"
    by (rule subseq_concat_map) (rule walk_urls_subseq)
  then show "subseq (snd (extractText (Doc d) [])) (spec_urls d)"
    by (simp only: eq sp)
  assume h: "(\<forall>n \<in> set (children d). hides_no_url n) \<and> [] \<notin> set (spec_urls d)"
  have "concat (map walk_urls (children d)) = concat (map spec_node_urls (children d))"
  proof (rule concat_map_cong_urls)
    fix x assume x: "x \<in> set (children d)"
    from h x have "hides_no_url x" by blast
    moreover from h x have "[] \<notin> set (spec_node_urls x)" by (auto simp add: sp)
    ultimately show "walk_urls x = spec_node_urls x" by (rule walk_urls_complete)
  qed
  then show "snd (extractText (Doc d) []) = spec_urls d"
    by (simp only: eq sp)
qed

theorem extractText_urls_witness:
  "snd (extractText (Doc links_doc) []) = spec_urls links_doc
   \<and> spec_urls links_doc
      = [''https://example.com/a'', ''https://example.com/b'', ''https://example.com/a'']"
proof -
  have h: "(\<forall>n \<in> set (children links_doc). hides_no_url n) \<and> [] \<notin> set (spec_urls links_doc)"
    by (simp add: links_doc_def spec_urls_def parent_of_def leaf_def linked_text_def
          text_node_def card_def children_def walked_def is_card_def is_media_def)
  have "spec_urls links_doc
      = [''https://example.com/a'', ''https://example.com/b'', ''https://example.com/a'']"
    by (simp add: links_doc_def spec_urls_def parent_of_def leaf_def linked_text_def
          text_node_def card_def is_card_def)
  with h extractText_urls[of links_doc] show ?thesis by simp
qed

text \<open>
  C6 as stated fails: a link in the caption of a media node is a link-marked text node of
  the document, and \<open>extractText\<close>, which renders the media node as a placeholder
  without looking below it, does not return its URL.
\<close>

theorem extractText_urls_counterexample:
  "spec_urls caption_doc = [''https://example.com/a'']
   \<and> snd (extractText (Doc caption_doc) []) = []"
  by (simp add: caption_doc_def spec_urls_def parent_of_def leaf_def linked_text_def
        is_card_def is_media_def)

section \<open>Properties of the comment builder\<close>

lemma split_char_nonempty: "split_char sep s \<noteq> []"
  by (induction s) (auto split: list.splits)

lemma unsplit_Cons_head: "unsplit sep ((c # p) # ps) = c # unsplit sep (p # ps)"
  by (cases ps) simp_all

lemma unsplit_split_char: "unsplit sep (split_char sep s) = s"
proof (induction s)
  case Nil
  then show ?case by simp
next
  case (Cons c cs)
  then show ?case
    by (cases "split_char sep cs") (auto simp add: split_char_nonempty unsplit_Cons_head)
qed

lemma split_char_head_prefix: "split_char sep s = p # ps \<Longrightarrow> prefix p s"
proof (induction s arbitrary: p ps)
  case Nil
  then show ?case by simp
next
  case (Cons d ds)
  obtain q qs where "split_char sep ds = q # qs"
    using split_char_nonempty by (cases "split_char sep ds") auto
  with Cons show ?case by (auto split: if_splits)
qed

lemma split_char_infix: "l \<in> set (split_char sep s) \<Longrightarrow> sublist l s"
proof (induction s arbitrary: l)
  case Nil
  then show ?case by simp
next
  case (Cons c cs)
  obtain p ps where sp: "split_char sep cs = p # ps"
    using split_char_nonempty by (cases "split_char sep cs") auto
  note p = split_char_head_prefix[OF sp]
  show ?case
  proof (cases "c = sep")
    case True
    with Cons.prems sp have "l = [] \<or> l \<in> set (split_char sep cs)" by auto
    with Cons.IH show ?thesis by (auto simp add: sublist_Cons_right)
  next
    case False
    with Cons.prems sp have "l = c # p \<or> l \<in> set ps" by auto
    then show ?thesis
    proof
      assume "l = c # p"
      with p have "prefix l (c # cs)" by simp
      then show ?thesis by (rule prefix_imp_sublist)
    next
      assume "l \<in> set ps"
      with sp Cons.IH have "sublist l cs" by simp
      then show ?thesis by (simp add: sublist_Cons_right)
    qed
  qed
qed

lemma split_blocks_nonempty: "split_blocks s \<noteq> []"
  by (induction s rule: split_blocks.induct) (auto split: list.splits)

lemma split_blocks_head_prefix: "split_blocks s = p # ps \<Longrightarrow> prefix p s"
proof (induction s arbitrary: p ps rule: split_blocks.induct)
  case 1
  then show ?case by simp
next
  case (2 c cs)
  show ?case
  proof (cases "c = newline \<and> startsWith cs [newline]")
    case True
    with 2(3) show ?thesis by simp
  next
    case False
    obtain q qs where q: "split_blocks cs = q # qs"
      using split_blocks_nonempty by (cases "split_blocks cs") auto
    with False 2(2)[OF False q] 2(3) show ?thesis by auto
  qed
qed

lemma split_blocks_infix: "b \<in> set (split_blocks s) \<Longrightarrow> sublist b s"
proof (induction s arbitrary: b rule: split_blocks.induct)
  case 1
  then show ?case by simp
next
  case (2 c cs)
  show ?case
  proof (cases "c = newline \<and> startsWith cs [newline]")
    case True
    with 2(3) have "b = [] \<or> b \<in> set (split_blocks (dropWhile (\<lambda>d. d = newline) cs))"
      by auto
    then show ?thesis
    proof
      assume "b = []" then show ?thesis by simp
    next
      assume "b \<in> set (split_blocks (dropWhile (\<lambda>d. d = newline) cs))"
      with 2(1)[OF True] have "sublist b (dropWhile (\<lambda>d. d = newline) cs)" by simp
      moreover have "sublist (dropWhile (\<lambda>d. d = newline) cs) (c # cs)"
        by (simp add: sublist_Cons_right)
      ultimately show ?thesis by (rule sublist_order.order_trans)
    qed
  next
    case False
    obtain q qs where q: "split_blocks cs = q # qs"
      using split_blocks_nonempty by (cases "split_blocks cs") auto
    with False 2(3) have "b = c # q \<or> b \<in> set qs" by auto
    then show ?thesis
    proof
      assume "b = c # q"
      with split_blocks_head_prefix[OF q] have "prefix b (c # cs)" by simp
      then show ?thesis by (rule prefix_imp_sublist)
    next
      assume "b \<in> set qs"
      with q 2(2)[OF False] have "sublist b cs" by simp
      then show ?thesis by (simp add: sublist_Cons_right)
    qed
  qed
qed

lemma trim_infix: "sublist (trim s) s"
proof -
  have "sublist (trimEnd x) x" for x
    by (simp add: trimEnd_def sublist_rev_left)
  then have "sublist (trim s) (trimStart s)" by (simp add: trim_def)
  moreover have "sublist (trimStart s) s" by (simp add: trimStart_def)
  ultimately show ?thesis by (rule sublist_order.order_trans)
qed

lemma has_mention_iff:
  "has_mention s \<longleftrightarrow> (\<exists>c. is_upper c \<and> sublist [CHR ''@'', c] s)"
proof (induction s rule: has_mention.induct)
  case 1
  then show ?case by simp
next
  case (2 a)
  then show ?case by (auto simp add: sublist_Cons_right)
next
  case (3 a c cs)
  then show ?case by (auto simp add: sublist_Cons_right)
qed

lemma no_inline_markup_infix:
  assumes "no_inline_markup s" "sublist l s"
  shows "no_inline_markup l"
proof -
  have "set l \<subseteq> set s" using assms(2) by (rule set_mono_sublist)
  moreover have "\<not> has_mention l"
  proof
    assume "has_mention l"
    then obtain c where "is_upper c" "sublist [CHR ''@'', c] l"
      by (auto simp add: has_mention_iff)
    with assms(2) have "is_upper c \<and> sublist [CHR ''@'', c] s"
      by (auto intro: sublist_order.order_trans)
    then have "has_mention s" by (auto simp add: has_mention_iff)
    with assms(1) show False by (simp add: no_inline_markup_def)
  qed
  ultimately show ?thesis using assms(1) by (auto simp add: no_inline_markup_def)
qed

lemma span_None: "c \<notin> set s \<Longrightarrow> span (c # cs) close s = None"
  by (cases s) (auto simp add: span_def)

lemma match_inline_plain: "no_inline_markup s \<Longrightarrow> match_inline s = None"
proof -
  assume a: "no_inline_markup s"
  then have "span [backtick] [backtick] s = None" "span ''**'' ''**'' s = None"
    "span ''*'' ''*'' s = None"
    by (simp_all add: no_inline_markup_def span_None)
  moreover have "(case s of a # c # cs \<Rightarrow>
          if a = CHR ''@'' \<and> is_upper c
          then Some (Mention (c # take (name_rest cs) cs), drop (name_rest cs) cs)
          else None
      | _ \<Rightarrow> None) = None"
    using a by (auto simp add: no_inline_markup_def split: list.splits)
  ultimately show ?thesis by (simp add: match_inline_def)
qed

lemma no_inline_markup_tl: "no_inline_markup (c # cs) \<Longrightarrow> no_inline_markup cs"
  by (rule no_inline_markup_infix[where s = "c # cs"]) (simp_all add: sublist_Cons_right)

lemma parse_scan_plain:
  "no_inline_markup s \<Longrightarrow> parse_scan searchUser s pending = flush (pending @ s)"
proof (induction s arbitrary: pending)
  case Nil
  then show ?case by simp
next
  case (Cons c cs)
  from Cons.prems have "match_inline (c # cs) = None" by (rule match_inline_plain)
  moreover from Cons.prems have "no_inline_markup cs" by (rule no_inline_markup_tl)
  ultimately show ?case using Cons.IH[of "pending @ [c]"] by simp
qed

lemma parseInlineFormatting_plain:
  "no_inline_markup s \<Longrightarrow> parseInlineFormatting searchUser s = [text_node s]"
  by (simp add: parseInlineFormatting_def parse_scan_plain flush_def Let_def)

lemma walk_text_simps:
  "walk_text (text_node s) = s"
  "walk_text (leaf ''hardBreak'') = [newline]"
  "walk_text (parent_of ''paragraph'' ns) = concat (map walk_text ns) @ [newline]"
  by (simp_all add: text_node_def leaf_def parent_of_def)

lemma paragraphContent_text:
  "\<forall>l \<in> set ls. no_inline_markup l \<Longrightarrow>
     concat (map walk_text (paragraphContent searchUser i ls))
       = (if i > 0 \<and> ls \<noteq> [] then [newline] else []) @ unsplit newline ls"
proof (induction ls arbitrary: i)
  case Nil
  then show ?case by simp
next
  case (Cons l ls)
  then show ?case
    by (cases ls) (simp_all add: parseInlineFormatting_plain walk_text_simps)
qed

lemma block_nodes_text:
  assumes "no_inline_markup b" "\<not> bullet_block b"
  shows "concat (map walk_text (block_nodes searchUser b))
           = (if trim b = [] then [] else trim b @ [newline])"
proof (cases "trim b = []")
  case True
  then show ?thesis by (simp add: block_nodes_def)
next
  case False
  let ?lines = "split_char newline (trim b)"
  from assms(2) False have nb: "\<not> isBulletList ?lines" by (simp add: bullet_block_def)
  have "\<forall>l \<in> set ?lines. no_inline_markup l"
    using assms(1) trim_infix split_char_infix no_inline_markup_infix by blast
  then have "concat (map walk_text (paragraphContent searchUser 0 ?lines)) = trim b"
    by (simp add: paragraphContent_text unsplit_split_char)
  with False nb show ?thesis
    by (simp add: block_nodes_def Let_def walk_text_simps)
qed

lemma block_nodes_empty:
  assumes "\<not> bullet_block b"
  shows "block_nodes searchUser b = [] \<longleftrightarrow> trim b = []"
  using assms by (auto simp add: block_nodes_def Let_def bullet_block_def)

lemma extractTextSimple_comment_doc:
  "extractTextSimple (comment_doc ns) = concat (map walk_text ns)"
  by (simp add: extractTextSimple_def comment_doc_def parent_of_def extractText_walk children_def)

lemma concat_map_if_blank:
  "concat (map (\<lambda>b. if trim b = [] then [] else f b) xs)
     = concat (map f (filter (\<lambda>b. trim b \<noteq> []) xs))"
  by (induction xs) auto

lemma is_space_newline: "is_space newline"
  by (simp add: is_space_def newline_def)

lemma visible_dropWhile:
  "filter (\<lambda>c. \<not> is_space c) (dropWhile is_space s) = filter (\<lambda>c. \<not> is_space c) s"
  by (induction s) auto

lemma visible_trim: "filter (\<lambda>c. \<not> is_space c) (trim s) = filter (\<lambda>c. \<not> is_space c) s"
proof -
  have "filter (\<lambda>c. \<not> is_space c) (trimEnd x) = filter (\<lambda>c. \<not> is_space c) x" for x
  proof -
    have "filter (\<lambda>c. \<not> is_space c) (trimEnd x)
        = rev (filter (\<lambda>c. \<not> is_space c) (dropWhile is_space (rev x)))"
      by (simp add: trimEnd_def rev_filter)
    also have "\<dots> = rev (filter (\<lambda>c. \<not> is_space c) (rev x))"
      by (simp only: visible_dropWhile)
    also have "\<dots> = filter (\<lambda>c. \<not> is_space c) x"
      by (simp add: rev_filter)
    finally show ?thesis .
  qed
  then show ?thesis by (simp add: trim_def trimStart_def visible_dropWhile)
qed

lemma visible_dropWhile_newline:
  "filter (\<lambda>c. \<not> is_space c) (dropWhile (\<lambda>d. d = newline) s) = filter (\<lambda>c. \<not> is_space c) s"
  by (induction s) (auto simp add: is_space_newline)

lemma visible_split_blocks:
  "concat (map (filter (\<lambda>c. \<not> is_space c)) (split_blocks s)) = filter (\<lambda>c. \<not> is_space c) s"
proof (induction s rule: split_blocks.induct)
  case 1
  then show ?case by simp
next
  case (2 c cs)
  show ?case
  proof (cases "c = newline \<and> startsWith cs [newline]")
    case True
    with 2(1) show ?thesis
      by (simp add: visible_dropWhile_newline is_space_newline)
  next
    case False
    obtain q qs where q: "split_blocks cs = q # qs"
      using split_blocks_nonempty by (cases "split_blocks cs") auto
    with False 2(2)[OF False] show ?thesis by auto
  qed
qed

lemma visible_normalized_blocks:
  "filter (\<lambda>c. \<not> is_space c) (normalized_blocks s) = filter (\<lambda>c. \<not> is_space c) s"
proof -
  let ?v = "filter (\<lambda>c. \<not> is_space c)"
  let ?bs = "filter (\<lambda>b. trim b \<noteq> []) (split_blocks s)"
  have blank: "?v b = []" if "trim b = []" for b
    using visible_trim[of b] that by simp
  have "?v (concat (map (\<lambda>b. trim b @ [newline]) xs)) = concat (map ?v xs)" for xs
    by (induction xs) (simp_all add: visible_trim is_space_newline)
  moreover have "concat (map ?v (filter (\<lambda>b. trim b \<noteq> []) xs)) = concat (map ?v xs)" for xs
    by (induction xs) (simp_all add: blank)
  ultimately have "?v (concat (map (\<lambda>b. trim b @ [newline]) ?bs)) = ?v s"
    by (simp only: visible_split_blocks)
  then show ?thesis
    by (simp add: normalized_blocks_def Let_def is_space_newline)
qed

text \<open>
  C7 (as amended). For every text without inline markup (no backtick, no asterisk, no
  \<open>@\<close> before a capital letter) and without a bullet-list block, decoding the document
  that \<open>buildCommentADF\<close> builds gives the non-blank blocks of the text, each trimmed
  and ended by one line feed (the text itself and a line feed when every block is blank):
  the visible characters of the text, in order, with white space changed at block
  boundaries only. A block is a bullet-list block when, once trimmed of the white space
  around it, it is not empty and each of its lines starts, after the white space at the
  start of the line, with the marker \<open>- \<close>; the lines are those of the trimmed block,
  as in the code, so white space and line feeds around a list do not matter.
\<close>

theorem plain_text_round_trip:
  assumes "no_inline_markup s" "\<forall>b \<in> set (split_blocks s). \<not> bullet_block b"
  shows "extractTextSimple (comment_doc (buildCommentADF searchUser s)) = normalized_blocks s
       \<and> filter (\<lambda>c. \<not> is_space c) (extractTextSimple (comment_doc (buildCommentADF searchUser s)))
           = filter (\<lambda>c. \<not> is_space c) s"
proof -
  let ?blocks = "split_blocks s"
  let ?ns = "concat (map (block_nodes searchUser) ?blocks)"
  have plain: "no_inline_markup b" if "b \<in> set ?blocks" for b
    using that assms(1) split_blocks_infix no_inline_markup_infix by blast
  have "concat (map walk_text (concat (map (block_nodes searchUser) xs)))
          = concat (map (\<lambda>b. trim b @ [newline]) (filter (\<lambda>b. trim b \<noteq> []) xs))"
    if "set xs \<subseteq> set ?blocks" for xs
    using that
  proof (induction xs)
    case Nil
    then show ?case by simp
  next
    case (Cons x xs)
    then have "no_inline_markup x" "\<not> bullet_block x" using plain assms(2) by auto
    with Cons show ?case by (simp add: block_nodes_text)
  qed
  then have rendered: "concat (map walk_text ?ns)
      = concat (map (\<lambda>b. trim b @ [newline]) (filter (\<lambda>b. trim b \<noteq> []) ?blocks))"
    by simp
  have "(concat (map (block_nodes searchUser) xs) = []) = (filter (\<lambda>b. trim b \<noteq> []) xs = [])"
    if "set xs \<subseteq> set ?blocks" for xs
    using that
  proof (induction xs)
    case Nil
    then show ?case by simp
  next
    case (Cons x xs)
    then have "\<not> bullet_block x" using assms(2) by auto
    with Cons show ?case by (simp add: block_nodes_empty)
  qed
  then have blank_iff: "(?ns = []) = (filter (\<lambda>b. trim b \<noteq> []) ?blocks = [])"
    by simp
  let ?bs = "filter (\<lambda>b. trim b \<noteq> []) ?blocks"
  have b: "buildCommentADF searchUser s
             = (if ?ns = [] then [parent_of ''paragraph'' [text_node s]] else ?ns)"
    by (simp add: buildCommentADF_def Let_def)
  have n: "normalized_blocks s
             = (if ?bs = [] then s @ [newline] else concat (map (\<lambda>b. trim b @ [newline]) ?bs))"
    by (simp add: normalized_blocks_def Let_def)
  have eq: "extractTextSimple (comment_doc (buildCommentADF searchUser s)) = normalized_blocks s"
  proof (cases "?ns = []")
    case True
    with blank_iff have bs: "?bs = []" by blast
    have "buildCommentADF searchUser s = [parent_of ''paragraph'' [text_node s]]"
      using True by (subst b) (rule if_P)
    moreover have "normalized_blocks s = s @ [newline]"
      using bs by (subst n) (rule if_P)
    ultimately show ?thesis
      by (simp add: extractTextSimple_comment_doc walk_text_simps)
  next
    case False
    with blank_iff have bs: "?bs \<noteq> []" by blast
    have "buildCommentADF searchUser s = ?ns"
      using False by (subst b) (rule if_not_P)
    moreover have "normalized_blocks s = concat (map (\<lambda>b. trim b @ [newline]) ?bs)"
      using bs by (subst n) (rule if_not_P)
    ultimately show ?thesis
      by (simp only: extractTextSimple_comment_doc rendered)
  qed
  then show ?thesis by (simp add: visible_normalized_blocks)
qed

theorem plain_text_round_trip_witness:
  "no_inline_markup two_paragraphs
   \<and> extractTextSimple (comment_doc (buildCommentADF sample_searchUser two_paragraphs))
       = ''Hello  you'' @ [newline] @ ''bye'' @ [newline]"
proof -
  have blocks: "split_blocks two_paragraphs = ['' Hello  you'', ''bye '']"
    by (simp add: two_paragraphs_def newline_def)
  have trims: "trim '' Hello  you'' = ''Hello  you''" "trim ''bye '' = ''bye''"
    by (simp_all add: trim_def trimStart_def trimEnd_def is_space_def)
  have h1: "no_inline_markup two_paragraphs"
    by (simp add: two_paragraphs_def no_inline_markup_def backtick_def newline_def)
  have h2: "\<forall>b \<in> set (split_blocks two_paragraphs). \<not> bullet_block b"
    by (simp add: blocks bullet_block_def trims isBulletList_def newline_def
          trimStart_def is_space_def)
  have "normalized_blocks two_paragraphs = ''Hello  you'' @ [newline] @ ''bye'' @ [newline]"
    by (simp add: normalized_blocks_def blocks trims)
  with h1 h2 plain_text_round_trip[OF h1 h2, of sample_searchUser] show ?thesis
    by simp
qed

text \<open>
  C7 as stated fails: a line that starts with the bullet marker has no inline markup, and
  the marker does not come back from the round trip.
\<close>

theorem plain_text_round_trip_counterexample:
  "no_inline_markup ''- a''
   \<and> extractTextSimple (comment_doc (buildCommentADF sample_searchUser ''- a'')) = ''a'' @ [newline]
   \<and> filter (\<lambda>c. \<not> is_space c) ''- a'' = ''-a''"
proof -
  have "extractTextSimple (comment_doc (buildCommentADF sample_searchUser ''- a'')) = ''a'' @ [newline]"
    by (simp add: extractTextSimple_comment_doc buildCommentADF_def block_nodes_def Let_def
       trim_def trimStart_def trimEnd_def is_space_def isBulletList_def listItem_def
       parseInlineFormatting_def match_inline_def span_def backtick_def flush_def
       newline_def parent_of_def text_node_def is_card_def is_media_def)
  then show ?thesis
    by (simp add: no_inline_markup_def backtick_def is_space_def)
qed

section \<open>Properties of the Figma fetch with retry\<close>

lemma retry_loop_step:
  fixes fetch :: "nat \<Rightarrow> string \<Rightarrow> exn + 'b response"
  assumes "fetch (length (requests st)) url = Inr r"
  shows "ok r \<Longrightarrow>
      retry_loop fetch url maxRetries maxWaitSec attempts st
        = (Inr (Response r), st\<lparr>requests := requests st @ [url]\<rparr>)"
    and "status r = 429 \<Longrightarrow> retryAfterSec r > maxWaitSec \<or> attempts \<ge> maxRetries \<Longrightarrow>
      retry_loop fetch url maxRetries maxWaitSec attempts st
        = (Inr (RateLimited (waitTime (retryAfterSec r))), st\<lparr>requests := requests st @ [url]\<rparr>)"
    and "status r = 429 \<Longrightarrow> \<not> (retryAfterSec r > maxWaitSec \<or> attempts \<ge> maxRetries) \<Longrightarrow>
      retry_loop fetch url maxRetries maxWaitSec attempts st
        = retry_loop fetch url maxRetries maxWaitSec (Suc attempts)
            (st\<lparr>requests := requests st @ [url],
                sleeps := sleeps st @ [retryAfterSec r * 1000]\<rparr>)"
    and "\<not> ok r \<Longrightarrow> status r \<noteq> 429 \<Longrightarrow>
      retry_loop fetch url maxRetries maxWaitSec attempts st
        = (Inr (Response r), st\<lparr>requests := requests st @ [url]\<rparr>)"
  using assms by (subst retry_loop.simps; auto simp add: Let_def ok_def)+

lemma retry_loop_throw:
  "fetch (length (requests st)) url = Inl e \<Longrightarrow>
     retry_loop fetch url maxRetries maxWaitSec attempts st
       = (Inl e, st\<lparr>requests := requests st @ [url]\<rparr>)"
  by (subst retry_loop.simps) (simp add: Let_def)


lemma retry_loop_with_60:
  "retry_loop (with_60 fetch) url maxRetries maxWaitSec attempts st
     = retry_loop fetch url maxRetries maxWaitSec attempts st"
proof (induction fetch url maxRetries maxWaitSec attempts st rule: retry_loop.induct)
  case (1 fetch url maxRetries maxWaitSec attempts st)
  show ?case
  proof (cases "fetch (length (requests st)) url")
    case (Inl e)
    then show ?thesis by (simp add: retry_loop_throw with_60_def)
  next
    case (Inr r)
    show ?thesis
    proof (cases "status r = 429")
      case False
      with Inr have "with_60 fetch (length (requests st)) url = Inr r"
        by (simp add: with_60_def)
      with Inr False show ?thesis
        by (cases "ok r") (simp_all add: retry_loop_step)
    next
      case True
      let ?r' = "r\<lparr>retry_after := as_60 (retry_after r)\<rparr>"
      have sec: "retryAfterSec ?r' = retryAfterSec r"
        by (cases "retry_after r") (simp_all add: retryAfterSec_def as_60_def)
      have st: "status ?r' = 429" "\<not> ok r" using True by (simp_all add: ok_def)
      from Inr True have f': "with_60 fetch (length (requests st)) url = Inr ?r'"
        by (simp add: with_60_def)
      show ?thesis
      proof (cases "retryAfterSec r > maxWaitSec \<or> attempts \<ge> maxRetries")
        case stop: True
        then show ?thesis
          using f' st(1) Inr True sec
            retry_loop_step(2)[where fetch = "with_60 fetch" and st = st and url = url
              and r = "?r'" and maxRetries = maxRetries and maxWaitSec = maxWaitSec
              and attempts = attempts]
            retry_loop_step(2)[where fetch = fetch and st = st and url = url
              and r = r and maxRetries = maxRetries and maxWaitSec = maxWaitSec
              and attempts = attempts]
          by simp
      next
        case go: False
        then show ?thesis
          using f' st Inr True sec
            retry_loop_step(3)[where fetch = "with_60 fetch" and st = st and url = url
              and r = "?r'" and maxRetries = maxRetries and maxWaitSec = maxWaitSec
              and attempts = attempts]
            retry_loop_step(3)[where fetch = fetch and st = st and url = url
              and r = r and maxRetries = maxRetries and maxWaitSec = maxWaitSec
              and attempts = attempts]
            "1.IH"[of "st\<lparr>requests := requests st @ [url]\<rparr>" r]
          by simp
      qed
    qed
  qed
qed

lemma show_nat_digit: "n < 10 \<Longrightarrow> show_nat n = [digit_char n]"
  by (simp add: show_nat.simps)

text \<open>
  C2. The backoff contract of \<open>figmaFetchWithRetry\<close>. When the request is answered by
  \<open>r\<close>: a 2xx response is returned at once; a 429 whose retry-after duration exceeds
  \<open>maxWaitSec\<close>, or met when the retry count has reached \<open>maxRetries\<close>, ends the call
  with a rate-limited result whose estimate is in hours above one hour and in seconds
  otherwise; any other 429 is followed by a wait of exactly the retry-after duration and
  the same request again, with the retry count one higher. With \<open>maxRetries = 3\<close>, two
  429 responses with retry-after 5 and then a 200 give the 200 after exactly two waits of
  5 seconds; one 429 with retry-after 7200 under \<open>maxWaitSec = 30\<close> gives the
  rate-limited result at the first request, with no wait and an estimate in hours.
\<close>

theorem figmaFetchWithRetry_contract:
  fixes fetch :: "nat \<Rightarrow> string \<Rightarrow> exn + 'b response"
  assumes "fetch (length (requests st)) url = Inr r"
  shows "(ok r \<longrightarrow>
      retry_loop fetch url maxRetries maxWaitSec attempts st
        = (Inr (Response r), st\<lparr>requests := requests st @ [url]\<rparr>))
  \<and> (status r = 429 \<and> (retryAfterSec r > maxWaitSec \<or> attempts \<ge> maxRetries) \<longrightarrow>
      retry_loop fetch url maxRetries maxWaitSec attempts st
        = (Inr (RateLimited
             (if retryAfterSec r > 3600
              then show_nat (round_hours (retryAfterSec r)) @ '' hours (monthly limit reached)''
              else show_nat (retryAfterSec r) @ '' seconds'')),
           st\<lparr>requests := requests st @ [url]\<rparr>))
  \<and> (status r = 429 \<and> \<not> (retryAfterSec r > maxWaitSec \<or> attempts \<ge> maxRetries) \<longrightarrow>
      retry_loop fetch url maxRetries maxWaitSec attempts st
        = retry_loop fetch url maxRetries maxWaitSec (Suc attempts)
            (st\<lparr>requests := requests st @ [url],
                sleeps := sleeps st @ [retryAfterSec r * 1000]\<rparr>))
  \<and> figmaFetchWithRetry mock_429_429_200 ''u'' 3 30 st0
        = (Inr (Response \<lparr>status = 200, retry_after = Absent, body = ()\<rparr>),
           st0\<lparr>requests := [''u'', ''u'', ''u''], sleeps := [5000, 5000]\<rparr>)
  \<and> figmaFetchWithRetry mock_429_7200 ''u'' 3 30 st0
        = (Inr (RateLimited ''2 hours (monthly limit reached)''), st0\<lparr>requests := [''u'']\<rparr>)"
proof -
  have ex1: "figmaFetchWithRetry mock_429_429_200 ''u'' 3 30 st0
        = (Inr (Response \<lparr>status = 200, retry_after = Absent, body = ()\<rparr>),
           st0\<lparr>requests := [''u'', ''u'', ''u''], sleeps := [5000, 5000]\<rparr>)"
    by (simp add: figmaFetchWithRetry_def retry_loop.simps mock_429_429_200_def st0_def ok_def
          retryAfterSec_def Let_def)
  have ex2: "figmaFetchWithRetry mock_429_7200 ''u'' 3 30 st0
        = (Inr (RateLimited ''2 hours (monthly limit reached)''), st0\<lparr>requests := [''u'']\<rparr>)"
    by (simp add: figmaFetchWithRetry_def retry_loop.simps mock_429_7200_def st0_def ok_def
          retryAfterSec_def Let_def waitTime_def round_hours_def show_nat_digit digit_char_def)
  show ?thesis
    using assms ex1 ex2
      retry_loop_step[where fetch = fetch and st = st and url = url and r = r
        and maxRetries = maxRetries and maxWaitSec = maxWaitSec and attempts = attempts]
    by (simp add: waitTime_def)
qed

theorem figmaFetchWithRetry_contract_witness:
  "mock_429_7200 (length (requests st0)) ''u''
     = Inr \<lparr>status = 429, retry_after = Seconds 7200, body = ()\<rparr>
   \<and> retry_loop mock_429_7200 ''u'' 3 30 0 st0
     = (Inr (RateLimited ''2 hours (monthly limit reached)''), st0\<lparr>requests := [''u'']\<rparr>)"
proof -
  have h: "mock_429_7200 (length (requests st0)) ''u''
     = Inr \<lparr>status = 429, retry_after = Seconds 7200, body = ()\<rparr>"
    by (simp add: mock_429_7200_def)
  show ?thesis
    using h figmaFetchWithRetry_contract[where fetch = mock_429_7200 and st = st0
        and url = "''u''" and r = "\<lparr>status = 429, retry_after = Seconds 7200, body = ()\<rparr>"
        and maxRetries = 3 and maxWaitSec = 30 and attempts = 0]
    by (simp add: retryAfterSec_def round_hours_def show_nat_digit digit_char_def st0_def)
qed



text \<open>
  C10. A 429 response whose \<open>retry-after\<close> header is absent, not numeric or zero is
  treated as one with a retry-after of 60 seconds: replacing every such header by 60
  changes nothing in the outcome of \<open>figmaFetchWithRetry\<close>. Under a \<open>maxWaitSec\<close>
  below 60 (the default is 30), such a response therefore ends the call at once with the
  rate-limited result, and no wait.
\<close>

theorem retry_after_default_60:
  fixes fetch :: "nat \<Rightarrow> string \<Rightarrow> exn + 'b response"
  shows "figmaFetchWithRetry (with_60 fetch) url maxRetries maxWaitSec st
           = figmaFetchWithRetry fetch url maxRetries maxWaitSec st
   \<and> (fetch (length (requests st)) url = Inr r \<and> status r = 429
        \<and> (retry_after r = Absent \<or> retry_after r = NonNumeric \<or> retry_after r = Seconds 0)
        \<and> maxWaitSec < 60 \<longrightarrow>
      figmaFetchWithRetry fetch url maxRetries maxWaitSec st
        = (Inr (RateLimited ''60 seconds''), st\<lparr>requests := requests st @ [url]\<rparr>))"
proof -
  have s60: "show_nat 60 = ''60''"
    by (simp add: show_nat.simps[of 60] show_nat_digit digit_char_def)
  have "figmaFetchWithRetry fetch url maxRetries maxWaitSec st
        = (Inr (RateLimited ''60 seconds''), st\<lparr>requests := requests st @ [url]\<rparr>)"
    if h: "fetch (length (requests st)) url = Inr r" "status r = 429"
      "retry_after r = Absent \<or> retry_after r = NonNumeric \<or> retry_after r = Seconds 0"
      "maxWaitSec < 60"
  proof -
    from h(3) have "retryAfterSec r = 60" by (auto simp add: retryAfterSec_def)
    with h show ?thesis
      using retry_loop_step(2)[where fetch = fetch and st = st and url = url and r = r
          and maxRetries = maxRetries and maxWaitSec = maxWaitSec and attempts = 0]
      by (simp add: figmaFetchWithRetry_def waitTime_def s60)
  qed
  then show ?thesis
    by (simp add: figmaFetchWithRetry_def retry_loop_with_60)
qed

theorem retry_after_default_60_witness:
  "mock_429_absent (length (requests st0)) ''u''
     = Inr \<lparr>status = 429, retry_after = Absent, body = ()\<rparr>
   \<and> figmaFetchWithRetry mock_429_absent ''u'' 3 30 st0
     = (Inr (RateLimited ''60 seconds''), st0\<lparr>requests := [''u'']\<rparr>)"
  using retry_after_default_60[of mock_429_absent "''u''" 3 30 st0
      "\<lparr>status = 429, retry_after = Absent, body = ()\<rparr>"]
  by (simp add: mock_429_absent_def st0_def)

section \<open>Properties of the reference extractor\<close>

lemma key_at_shape: "key_at s = Some (k, rest) \<Longrightarrow> key_shape k"
proof -
  assume "key_at s = Some (k, rest)"
  then obtain c cs r where k: "is_upper c"
      "k = c # takeWhile is_key_char cs @ CHR ''-'' # takeWhile is_digit r"
    by (auto simp add: key_at_def split: list.splits if_splits)
  have "\<forall>x \<in> set (takeWhile is_key_char cs). is_upper x \<or> is_digit x"
    by (auto dest: set_takeWhileD simp add: is_key_char_def)
  moreover have "\<forall>x \<in> set (takeWhile is_digit r). is_digit x"
    by (auto dest: set_takeWhileD)
  ultimately show ?thesis using k by (auto simp add: key_shape_def)
qed

lemma url_at_shape: "url_at s = Some (k, rest) \<Longrightarrow> key_shape k"
proof -
  have lb: "last_browse r = Some (k, rest) \<Longrightarrow> key_shape k" for r
  proof (induction r)
    case Nil
    then show ?case by simp
  next
    case (Cons c cs)
    then show ?case
      by (auto simp add: browse_key_def split: if_splits option.splits dest: key_at_shape)
  qed
  assume "url_at s = Some (k, rest)"
  then show ?thesis by (auto simp add: url_at_def split: option.splits dest: lb)
qed

lemma url_keys_shape: "k \<in> set (url_keys s) \<Longrightarrow> key_shape k"
proof (induction s rule: url_keys.induct)
  case 1
  then show ?case by simp
next
  case (2 c cs)
  show ?case
  proof (cases "url_at (c # cs)")
    case None
    with 2 show ?thesis by simp
  next
    case (Some m)
    obtain k' rest where m: "m = (k', rest)" by (cases m)
    from Some m have "key_shape k'" by (auto dest: url_at_shape)
    with 2 Some m show ?thesis by auto
  qed
qed

lemma bare_keys_shape: "k \<in> set (bare_keys w s) \<Longrightarrow> key_shape k"
proof (induction w s rule: bare_keys.induct)
  case (1 w)
  then show ?case by simp
next
  case (2 w c cs)
  show ?case
  proof (cases "if w then None else bare_key_at (c # cs)")
    case None
    with 2 show ?thesis by simp
  next
    case (Some m)
    obtain k' rest where m: "m = (k', rest)" by (cases m)
    from Some m have "bare_key_at (c # cs) = Some (k', rest)" by (simp split: if_splits)
    then have "key_shape k'"
      by (auto simp add: bare_key_at_def split: option.splits if_splits dest: key_at_shape)
    with 2 Some m show ?thesis by auto
  qed
qed

lemma foldl_set_add: "distinct acc \<Longrightarrow>
  distinct (foldl set_add acc xs) \<and> set (foldl set_add acc xs) = set acc \<union> set xs"
  by (induction xs arbitrary: acc) (auto simp add: set_add_def)

lemma key_shape_upper: "key_shape k \<Longrightarrow> toUpperCase k = k"
proof -
  have "upper_char c = c" if "is_upper c \<or> is_digit c \<or> c = CHR ''-''" for c
    using that by (auto simp add: upper_char_def is_upper_def is_lower_def is_digit_def)
  then show "key_shape k \<Longrightarrow> toUpperCase k = k"
    by (simp add: key_shape_def toUpperCase_def map_idI)
qed

lemma findJiraTicketKeys_set:
  "set (findJiraTicketKeys s ck) = {k \<in> set (url_keys s) \<union> set (bare_keys False s). Some k \<noteq> ck}"
  "distinct (findJiraTicketKeys s ck)"
  using foldl_set_add[of "[]" "filter (\<lambda>k. Some k \<noteq> ck) (url_keys s @ bare_keys False s)"]
  by (auto simp add: findJiraTicketKeys_def)

lemma findJiraTicketKeys_eval:
  "findJiraTicketKeys ''See PROJ-1 and proj-1'' None = [''PROJ-1'']"
  "findJiraTicketKeys ''PROJ-1'' (Some ''proj-1'') = [''PROJ-1'']"
  "findJiraTicketKeys ''see proj-1'' None = []"
  "findJiraTicketKeys sample_text (Some ''EF-4'') = [''CD-3'', ''AB-12'']"
  by (simp_all add: findJiraTicketKeys_def url_at_def after_scheme_def bare_key_at_def key_at_def
        browse_key_def is_space_def sample_text_def
        is_word_def is_alnum_def is_upper_def is_lower_def is_digit_def is_key_char_def set_add_def)

text \<open>
  C3 (as amended). \<open>findJiraTicketKeys\<close> matches with case: the keys it returns are
  those matched by its two expressions, written in capital letters, digits and a hyphen
  and returned as written, without the ones equal to the current key; no key occurs
  twice, so no two of them are equal up to case. In \<open>See PROJ-1 and proj-1\<close> it finds
  \<open>PROJ-1\<close> alone.
\<close>

theorem findJiraTicketKeys_keys:
  "distinct (findJiraTicketKeys s ck)
   \<and> set (findJiraTicketKeys s ck)
       = {k \<in> set (url_keys s) \<union> set (bare_keys False s). Some k \<noteq> ck}
   \<and> (\<forall>k \<in> set (findJiraTicketKeys s ck).
         Some k \<noteq> ck \<and> toUpperCase k = k
         \<and> (\<forall>k' \<in> set (findJiraTicketKeys s ck). toUpperCase k' = toUpperCase k \<longrightarrow> k' = k))
   \<and> findJiraTicketKeys ''See PROJ-1 and proj-1'' None = [''PROJ-1'']"
proof -
  have up: "toUpperCase k = k" if "k \<in> set (findJiraTicketKeys s ck)" for k
  proof -
    from that have "k \<in> set (url_keys s) \<union> set (bare_keys False s)"
      by (simp add: findJiraTicketKeys_set)
    then have "key_shape k" by (auto dest: url_keys_shape bare_keys_shape)
    then show ?thesis by (rule key_shape_upper)
  qed
  have "Some k \<noteq> ck" if "k \<in> set (findJiraTicketKeys s ck)" for k
    using that by (simp add: findJiraTicketKeys_set)
  moreover have "k' = k"
    if "k \<in> set (findJiraTicketKeys s ck)" "k' \<in> set (findJiraTicketKeys s ck)"
       "toUpperCase k' = toUpperCase k" for k k'
    using that up by metis
  ultimately show ?thesis
    using up findJiraTicketKeys_set[of s ck] findJiraTicketKeys_eval(1) by blast
qed

theorem findJiraTicketKeys_keys_witness:
  "distinct (findJiraTicketKeys sample_text (Some ''EF-4''))
   \<and> findJiraTicketKeys sample_text (Some ''EF-4'') = [''CD-3'', ''AB-12'']"
  using findJiraTicketKeys_keys[of sample_text "Some ''EF-4''"]
  by (simp add: findJiraTicketKeys_eval)

text \<open>
  C3 as stated fails: the expressions have no \<open>i\<close> flag and nothing changes the case of
  a key, so a key in small letters in the text is not found, and a current key given in
  small letters does not exclude the same key in capitals.
\<close>

theorem findJiraTicketKeys_case_counterexample:
  "findJiraTicketKeys ''see proj-1'' None = []
   \<and> findJiraTicketKeys ''PROJ-1'' (Some ''proj-1'') = [''PROJ-1'']
   \<and> toUpperCase ''proj-1'' = ''PROJ-1''"
proof -
  have "toUpperCase ''proj-1'' = ''PROJ-1''" by code_simp
  then show ?thesis by (simp add: findJiraTicketKeys_eval)
qed

subsection \<open>\<open>parseFigmaUrl\<close>\<close>

lemma find_fileKey_dropWhile:
  "find_fileKey ps
     = (case dropWhile (\<lambda>p. \<not> is_kind p) ps of k # q # qs \<Rightarrow> Some q | _ \<Rightarrow> None)"
  by (induction ps) (auto split: list.splits)

text \<open>
  C8 (as amended). For every string that the URL constructor accepts, \<open>parseFigmaUrl\<close>
  returns a design reference or nothing. It returns nothing exactly when the path has no
  segment equal to \<open>file\<close>, \<open>design\<close> or \<open>proto\<close>, or the first such segment is the
  last one or stands before an empty segment. Otherwise the file key is the segment
  after the first such segment, and the node identifier is the first \<open>node-id\<close>
  parameter with its hyphens turned into colons when that parameter is there and not
  empty, and nothing otherwise. For \<open>https://figma.com/design/ABC123/Name?node-id=1-2\<close>
  the result is the file key \<open>ABC123\<close> with the node \<open>1:2\<close>.
\<close>

theorem parseFigmaUrl_result:
  "(new_URL u = Some urlObj \<longrightarrow> parseFigmaUrl new_URL u = Inr (designRef_of urlObj))
   \<and> (designRef_of urlObj = None
        \<longleftrightarrow> \<not> (\<exists>k q qs. dropWhile (\<lambda>p. \<not> is_kind p) (split_char CHR ''/'' (pathname urlObj))
                             = k # q # qs \<and> q \<noteq> []))
   \<and> (dropWhile (\<lambda>p. \<not> is_kind p) (split_char CHR ''/'' (pathname urlObj)) = k # q # qs
        \<and> q \<noteq> [] \<longrightarrow>
        designRef_of urlObj
          = Some \<lparr>fileKey = q,
                  nodeId = (case map_of (searchParams urlObj) ''node-id'' of
                              None \<Rightarrow> None
                            | Some v \<Rightarrow> if v = [] then None else Some (hyphens_to_colons v))\<rparr>)
   \<and> (new_URL ''https://figma.com/design/ABC123/Name?node-id=1-2'' = Some design_url \<longrightarrow>
        parseFigmaUrl new_URL ''https://figma.com/design/ABC123/Name?node-id=1-2''
          = Inr (Some \<lparr>fileKey = ''ABC123'', nodeId = Some ''1:2''\<rparr>))"
proof -
  have ex: "designRef_of design_url = Some \<lparr>fileKey = ''ABC123'', nodeId = Some ''1:2''\<rparr>"
    by (simp add: designRef_of_def design_url_def is_kind_def hyphens_to_colons_def)
  have a: "new_URL u = Some urlObj \<longrightarrow> parseFigmaUrl new_URL u = Inr (designRef_of urlObj)"
    by (simp add: parseFigmaUrl_def)
  define dw where "dw = dropWhile (\<lambda>p. \<not> is_kind p) (split_char CHR ''/'' (pathname urlObj))"
  have fk: "find_fileKey (split_char CHR ''/'' (pathname urlObj))
              = (case dw of k # q # qs \<Rightarrow> Some q | _ \<Rightarrow> None)"
    by (simp add: dw_def find_fileKey_dropWhile)
  have b: "designRef_of urlObj = None \<longleftrightarrow> \<not> (\<exists>k q qs. dw = k # q # qs \<and> q \<noteq> [])"
    by (auto simp add: designRef_of_def Let_def fk split: list.splits)
  have c: "dw = k # q # qs \<and> q \<noteq> [] \<longrightarrow>
        designRef_of urlObj
          = Some \<lparr>fileKey = q,
                  nodeId = (case map_of (searchParams urlObj) ''node-id'' of
                              None \<Rightarrow> None
                            | Some v \<Rightarrow> if v = [] then None else Some (hyphens_to_colons v))\<rparr>"
    by (auto simp add: designRef_of_def Let_def fk split: option.splits)
  have d: "new_URL ''https://figma.com/design/ABC123/Name?node-id=1-2'' = Some design_url \<longrightarrow>
        parseFigmaUrl new_URL ''https://figma.com/design/ABC123/Name?node-id=1-2''
          = Inr (Some \<lparr>fileKey = ''ABC123'', nodeId = Some ''1:2''\<rparr>)"
    by (simp add: parseFigmaUrl_def ex)
  from a b c d show ?thesis unfolding dw_def by blast
qed

theorem parseFigmaUrl_result_witness:
  "parseFigmaUrl [''https://figma.com/design/ABC123/Name?node-id=1-2'' \<mapsto> design_url]
     ''https://figma.com/design/ABC123/Name?node-id=1-2''
     = Inr (Some \<lparr>fileKey = ''ABC123'', nodeId = Some ''1:2''\<rparr>)"
proof -
  let ?u = "''https://figma.com/design/ABC123/Name?node-id=1-2''"
  have h: "[?u \<mapsto> design_url] ?u = Some design_url" by simp
  from parseFigmaUrl_result[of "[?u \<mapsto> design_url]" ?u design_url "[]" "[]" "[]"]
  have "[?u \<mapsto> design_url] ?u = Some design_url \<longrightarrow>
        parseFigmaUrl [?u \<mapsto> design_url] ?u
          = Inr (Some \<lparr>fileKey = ''ABC123'', nodeId = Some ''1:2''\<rparr>)"
    by (rule conjunct2[THEN conjunct2, THEN conjunct2])
  with h show ?thesis by (rule rev_mp)
qed

text \<open>
  C8 as stated fails: in \<open>https://figma.com/design/\<close> the keyword \<open>design\<close> is a
  segment of the path, and the result is nothing all the same, since no file key follows
  it. The constructor here is the one that gives this address the path \<open>/design/\<close>,
  as the platform's does.
\<close>

theorem parseFigmaUrl_keyword_counterexample:
  "split_char CHR ''/'' (pathname design_only_url) = [[], ''design'', []]
   \<and> is_kind ''design''
   \<and> designRef_of design_only_url = None
   \<and> parseFigmaUrl [''https://figma.com/design/'' \<mapsto> design_only_url]
         ''https://figma.com/design/'' = Inr None"
  by (simp add: parseFigmaUrl_def designRef_of_def design_only_url_def is_kind_def)

section \<open>Properties of the design export\<close>




















section \<open>Properties of \<open>getTicket\<close>\<close>



















subsection \<open>The requests of one run\<close>







text \<open>A run in which the text names the parent once and another key twice: the parent is
  fetched once, as the parent, and the other key once.\<close>

lemma getTicket_referencing_calls:
  "jira_calls (snd (getTicket referencing_env ''PROJ-1'' True True st0))
     = [''/issue/PROJ-1?expand=renderedFields'', ''/issue/PROJ-9?expand=renderedFields'',
        ''/issue/PROJ-7?expand=renderedFields'']"
  by code_simp




subsection \<open>An exception that leaves \<open>getTicket\<close>\<close>

lemma schemeless_link_keys:
  "findJiraTicketKeys (fst (extractText (description schemeless_link_issue) []))
     (Some ''PROJ-1'') = []"
  by code_simp

lemma schemeless_link_urls:
  "allFigmaUrls (fst (extractText (description schemeless_link_issue) []))
     (snd (extractText (description schemeless_link_issue) []))
     = [''www.figma.com/file/abc123/Login'']"
  by code_simp

lemma schemeless_link_fields:
  "parent schemeless_link_issue = None" "comments schemeless_link_issue = []"
  "attachments schemeless_link_issue = []" "subtasks schemeless_link_issue = []"
  "issuelinks schemeless_link_issue = []"
  by (simp_all add: schemeless_link_issue_def empty_issue_def)

lemma schemeless_link_world:
  "jira (schemeless_link_env U) n endpoint = Inr schemeless_link_issue"
  "construct_URL (schemeless_link_env U) = U"
  "figmaConfig (schemeless_link_env U)"
  by (simp_all add: schemeless_link_env_def sample_env_def)

text \<open>
  C5, at an input where it fails. The issue \<open>PROJ-1\<close> is fetched; its description holds
  a link whose address, \<open>www.figma.com/file/abc123/Login\<close>, has no scheme. The address
  contains \<open>figma.com\<close>, so it is given to \<open>fetchFigmaDesign\<close>, which parses it before
  its \<open>try\<close> begins. Where the URL constructor throws for this address, the exception
  leaves \<open>fetchFigmaDesign\<close> and, the call being awaited outside any \<open>try\<close>,
  \<open>getTicket\<close>: the call gives no report.
\<close>

theorem getTicket_throws_on_schemeless_link:
  assumes "U ''www.figma.com/file/abc123/Login'' = None"
  shows "jira (schemeless_link_env U) 0 (issue_expanded ''PROJ-1'') = Inr schemeless_link_issue
       \<and> fst (getTicket (schemeless_link_env U) ''PROJ-1'' True True st0)
           = Inl (TypeError ''Invalid URL'')"
proof -
  have "fetchFigmaDesign (schemeless_link_env U) ''www.figma.com/file/abc123/Login'' st
          = (Inl (TypeError ''Invalid URL''), st)" for st
    using assms by (simp add: fetchFigmaDesign_def parseFigmaUrl_def schemeless_link_world)
  then have "figma_section (schemeless_link_env U) True
                (fst (extractText (description schemeless_link_issue) []))
                (snd (extractText (description schemeless_link_issue) [])) st
              = (Inl (TypeError ''Invalid URL''), st)" for st
    by (simp add: figma_section_def schemeless_link_urls schemeless_link_world)
  then show ?thesis
    by (simp add: getTicket_def fetchJira_def schemeless_link_world schemeless_link_fields
        parent_section_def comments_section_def attachments_section_def
        subtasks_section_def linked_section_def referenced_section_def ticketsToFetch_def
        schemeless_link_keys)
qed

theorem getTicket_throws_on_schemeless_link_witness:
  "Map.empty ''www.figma.com/file/abc123/Login'' = (None :: url option)
   \<and> jira (schemeless_link_env Map.empty) 0 (issue_expanded ''PROJ-1'') = Inr schemeless_link_issue
   \<and> fst (getTicket (schemeless_link_env Map.empty) ''PROJ-1'' True True st0)
       = Inl (TypeError ''Invalid URL'')"
  using getTicket_throws_on_schemeless_link[of Map.empty] by simp

end
